theory Spec2Isabelle
  imports Main "HOL-Library.Sublist"
begin

section \<open>Strings (the functions of Go's \<open>strings\<close> package that the program calls)\<close>

text \<open>
  A Go string is a byte sequence: \<open>string\<close> (a \<open>char list\<close>) here.
  \<open>strings.HasPrefix(s, p)\<close> is \<open>len(s) >= len(p) && s[:len(p)] == p\<close>,
  \<open>strings.HasSuffix\<close> and \<open>strings.TrimSuffix\<close> alike at the other end.
\<close>

definition strings_HasPrefix :: "string \<Rightarrow> string \<Rightarrow> bool" where
  "strings_HasPrefix s p = (length p \<le> length s \<and> take (length p) s = p)"

definition strings_HasSuffix :: "string \<Rightarrow> string \<Rightarrow> bool" where
  "strings_HasSuffix s p = (length p \<le> length s \<and> drop (length s - length p) s = p)"

definition strings_TrimSuffix :: "string \<Rightarrow> string \<Rightarrow> string" where
  "strings_TrimSuffix s p =
     (if strings_HasSuffix s p then take (length s - length p) s else s)"

text \<open>\<open>strings.Contains(s, sub)\<close>: \<open>sub\<close> occurs in \<open>s\<close> at some offset.\<close>

fun strings_Contains :: "string \<Rightarrow> string \<Rightarrow> bool" where
  "strings_Contains [] sub = (sub = [])"
| "strings_Contains (c # cs) sub =
     (strings_HasPrefix (c # cs) sub \<or> strings_Contains cs sub)"

text \<open>
  \<open>strings.Split(s, sep)\<close> for a separator of one byte (the program only splits at
  \<open>"\n"\<close>): n separators give n + 1 pieces, the empty string gives one empty piece.
\<close>

fun strings_Split :: "string \<Rightarrow> char \<Rightarrow> string list" where
  "strings_Split [] sep = [[]]"
| "strings_Split (c # cs) sep =
     (if c = sep then [] # strings_Split cs sep
      else (case strings_Split cs sep of
              [] \<Rightarrow> [[c]]
            | piece # pieces \<Rightarrow> (c # piece) # pieces))"

definition newline :: char where
  "newline = CHR 0x0A"

section \<open>The outside world: subprocesses and the spinner\<close>

text \<open>
  \<open>exec.Command(name, args...)\<close> with its \<open>Dir\<close> field set: the argument vector
  (the command name first, as in \<open>exec.Cmd.Args\<close>) and the working directory.
\<close>

record invocation =
  Dir :: string
  Args :: "string list"

text \<open>
  What the program hands to the spinner of the display library: \<open>Start\<close>,
  \<open>UpdateText\<close> and the closing \<open>Info\<close> (with the prefix text set just before),
  \<open>Fail\<close>, \<open>Warning\<close>, \<open>Success\<close>. The formatted texts are kept as their
  arguments: \<open>Warning repository succeeded total failed\<close> is
  \<open>Sprintf("%s: [%d/%d] (%s)", ...)\<close>, \<open>Success repository n total\<close> is
  \<open>Sprintf("%s: [%d/%d]", ...)\<close>. \<open>Found n\<close> and \<open>NoRepositories dir\<close> are the two
  messages of the discovery stage. \<open>Println\<close> and \<open>Printf_updating\<close> are the
  lines that the earlier variant of the command prints instead of driving a spinner.
\<close>

datatype event =
    Start string
  | UpdateText string string
  | Info string
  | Fail
  | Warning string int int "string list"
  | Success string int int
  | Found nat
  | NoRepositories string
  | Println string
  | Printf_updating nat

text \<open>
  The errors of the program: its two sentinel values, the error of a subprocess that
  could not run or exited non-zero, and the error of a library call (spinner, prompt,
  user lookup). \<open>errors.Is\<close> on a sentinel is equality here, since no error is wrapped.
\<close>

datatype error =
    ExecError nat
  | LibError nat
  | errStashNotAllowed
  | errNoBranch

text \<open>
  The program is deterministic given what its collaborators answer. An answer may depend
  on everything that ran before, so each collaborator is a function of the subprocesses
  run so far: \<open>exec\<close> gives a subprocess's exit failure (\<open>Inl\<close>) or its standard output
  (\<open>Inr\<close>), \<open>spinnerStart\<close> the error of \<open>Start\<close> if any, \<open>confirmShow\<close> the
  answer of the interactive prompt, \<open>userCurrent\<close> the home directory of
  \<open>user.Current()\<close>, \<open>filepath_Join\<close> the library's path join.
\<close>

record world =
  exec :: "invocation list \<Rightarrow> invocation \<Rightarrow> nat + string"
  spinnerStart :: "invocation list \<Rightarrow> string \<Rightarrow> nat option"
  confirmShow :: "invocation list \<Rightarrow> nat \<Rightarrow> nat + bool"
  userCurrent :: "nat + string"
  filepath_Join :: "string \<Rightarrow> string \<Rightarrow> string"

text \<open>The flags, package-level variables in the source.\<close>

record config =
  pathPrefix :: string
  requestedBranches :: "string list"
  allBranches :: bool
  stashChanges :: bool

text \<open>What a run leaves behind: the subprocesses it ran and what it showed, both in order.\<close>

record state =
  trace :: "invocation list"
  display :: "event list"

definition emit :: "event \<Rightarrow> state \<Rightarrow> state" where
  "emit e s = s\<lparr>display := display s @ [e]\<rparr>"

text \<open>\<open>cmd.Run()\<close> and \<open>cmd.Output()\<close>.\<close>

definition Run :: "world \<Rightarrow> invocation \<Rightarrow> state \<Rightarrow> error option \<times> state" where
  "Run w c s =
     ((case exec w (trace s) c of Inl n \<Rightarrow> Some (ExecError n) | Inr out \<Rightarrow> None),
      s\<lparr>trace := trace s @ [c]\<rparr>)"

definition Output :: "world \<Rightarrow> invocation \<Rightarrow> state \<Rightarrow> (error + string) \<times> state" where
  "Output w c s =
     ((case exec w (trace s) c of Inl n \<Rightarrow> Inl (ExecError n) | Inr out \<Rightarrow> Inr out),
      s\<lparr>trace := trace s @ [c]\<rparr>)"

definition spinner_Start :: "world \<Rightarrow> string \<Rightarrow> state \<Rightarrow> error option \<times> state" where
  "spinner_Start w text s =
     ((case spinnerStart w (trace s) text of Some n \<Rightarrow> Some (LibError n) | None \<Rightarrow> None),
      emit (Start text) s)"

section \<open>The subprocesses the program runs\<close>

definition git_status :: "string \<Rightarrow> invocation" where
  "git_status repo = \<lparr>Dir = repo, Args = [''git'', ''status'', ''--porcelain'']\<rparr>"

definition git_stash :: "string \<Rightarrow> invocation" where
  "git_stash repo = \<lparr>Dir = repo, Args = [''git'', ''stash'']\<rparr>"

definition git_fetch :: "string \<Rightarrow> invocation" where
  "git_fetch repo = \<lparr>Dir = repo, Args = [''git'', ''fetch'', ''--all'']\<rparr>"

definition git_branch_short :: "string \<Rightarrow> invocation" where
  "git_branch_short repo =
     \<lparr>Dir = repo, Args = [''git'', ''branch'', ''-l'', ''--format=%(refname:short)'']\<rparr>"

definition git_branch :: "string \<Rightarrow> invocation" where
  "git_branch repo = \<lparr>Dir = repo, Args = [''git'', ''branch'', ''-l'']\<rparr>"

definition git_checkout :: "string \<Rightarrow> string \<Rightarrow> invocation" where
  "git_checkout repo branch = \<lparr>Dir = repo, Args = [''git'', ''checkout'', branch]\<rparr>"

definition git_pull :: "string \<Rightarrow> invocation" where
  "git_pull repo = \<lparr>Dir = repo, Args = [''git'', ''pull'']\<rparr>"

section \<open>The update command: one repository\<close>

text \<open>\<open>updateBranch(repo, branch)\<close>: checkout, then pull.\<close>

definition updateBranch :: "world \<Rightarrow> string \<Rightarrow> string \<Rightarrow> state \<Rightarrow> error option \<times> state" where
  "updateBranch w repo branch s =
     (case Run w (git_checkout repo branch) s of
        (Some err, s1) \<Rightarrow> (Some err, s1)
      | (None, s1) \<Rightarrow> Run w (git_pull repo) s1)"

text \<open>Observers of a trace: the branches checked out, in order.\<close>

fun checkoutsOf :: "invocation list \<Rightarrow> string list" where
  "checkoutsOf [] = []"
| "checkoutsOf (c # cs) =
     (case Args c of
        [g, sub, branch] \<Rightarrow>
          (if g = ''git'' \<and> sub = ''checkout'' then branch # checkoutsOf cs
           else checkoutsOf cs)
      | _ \<Rightarrow> checkoutsOf cs)"

text \<open>\<open>stashIfDirty(repo)\<close>: the status query, then the stash when there are changes
  and the flag allows it.\<close>

definition stashIfDirty :: "world \<Rightarrow> config \<Rightarrow> string \<Rightarrow> state \<Rightarrow> error option \<times> state" where
  "stashIfDirty w cfg repo s =
     (case Output w (git_status repo) s of
        (Inl err, s1) \<Rightarrow> (Some err, s1)
      | (Inr changes, s1) \<Rightarrow>
          if length changes = 0 then (None, s1)
          else if \<not> stashChanges cfg then (Some errStashNotAllowed, s1)
          else Run w (git_stash repo) s1)"

text \<open>
  The two loops of \<open>fetchBranchesToUpdate\<close>. The inner one appends the branch once
  for every requested name equal to it; the outer one skips the lines that are not
  branch names and appends the others, all of them or those requested.
\<close>

fun appendRequested :: "string \<Rightarrow> string list \<Rightarrow> string list \<Rightarrow> string list" where
  "appendRequested branch [] branchesList = branchesList"
| "appendRequested branch (activeBranch # rest) branchesList =
     appendRequested branch rest
       (if branch = activeBranch then branchesList @ [branch] else branchesList)"

definition skipLine :: "string \<Rightarrow> bool" where
  "skipLine branch =
     (branch = [] \<or>
      strings_HasPrefix branch ''refs/'' \<or>
      strings_HasPrefix branch ''heads/'' \<or>
      strings_HasPrefix branch ''origin/'' \<or>
      strings_Contains branch '' '')"

fun appendBranches :: "config \<Rightarrow> string list \<Rightarrow> string list \<Rightarrow> string list" where
  "appendBranches cfg [] branchesList = branchesList"
| "appendBranches cfg (branch # rest) branchesList =
     (if skipLine branch then appendBranches cfg rest branchesList
      else if \<not> allBranches cfg
      then appendBranches cfg rest (appendRequested branch (requestedBranches cfg) branchesList)
      else appendBranches cfg rest (branchesList @ [branch]))"

definition fetchBranchesToUpdate ::
  "world \<Rightarrow> config \<Rightarrow> string \<Rightarrow> state \<Rightarrow> (error + string list) \<times> state" where
  "fetchBranchesToUpdate w cfg repo s =
     (case Run w (git_fetch repo) s of
        (Some err, s1) \<Rightarrow> (Inl err, s1)
      | (None, s1) \<Rightarrow>
          (case Output w (git_branch_short repo) s1 of
             (Inl err, s2) \<Rightarrow> (Inl err, s2)
           | (Inr branches, s2) \<Rightarrow>
               (let branchesList = appendBranches cfg (strings_Split branches newline) []
                in if length branchesList = 0 then (Inl errNoBranch, s2)
                   else (Inr branchesList, s2))))"

text \<open>The per-branch loop of \<open>updateRepository\<close>, with its list of failed branches.\<close>

fun updateBranches ::
  "world \<Rightarrow> string \<Rightarrow> string list \<Rightarrow> string list \<Rightarrow> state \<Rightarrow> string list \<times> state" where
  "updateBranches w repository [] failedUpdates s = (failedUpdates, s)"
| "updateBranches w repository (branch # rest) failedUpdates s =
     (case updateBranch w repository branch (emit (UpdateText branch repository) s) of
        (Some err, s1) \<Rightarrow> updateBranches w repository rest (failedUpdates @ [branch]) s1
      | (None, s1) \<Rightarrow> updateBranches w repository rest failedUpdates s1)"

text \<open>The closing report of \<open>updateRepository\<close>, from the two lists.\<close>

definition report :: "string \<Rightarrow> string list \<Rightarrow> string list \<Rightarrow> event" where
  "report repository activeBranches failedUpdates =
     (if length failedUpdates = length activeBranches then Fail
      else if length failedUpdates > 0
      then Warning repository
             (int (length activeBranches) - int (length failedUpdates))
             (int (length activeBranches)) failedUpdates
      else Success repository (int (length activeBranches)) (int (length activeBranches)))"

definition updateRepository ::
  "world \<Rightarrow> config \<Rightarrow> string \<Rightarrow> state \<Rightarrow> error option \<times> state" where
  "updateRepository w cfg repository s =
     (case spinner_Start w repository s of
        (Some err, s0) \<Rightarrow> (Some err, s0)
      | (None, s0) \<Rightarrow>
          (case stashIfDirty w cfg repository s0 of
             (Some err, s1) \<Rightarrow>
               (Some err,
                if err = errStashNotAllowed then emit (Info ''SKIPPED'') s1 else emit Fail s1)
           | (None, s1) \<Rightarrow>
               (case fetchBranchesToUpdate w cfg repository s1 of
                  (Inl err, s2) \<Rightarrow>
                    (Some err,
                     if err = errNoBranch then emit (Info '' NO-BRANCH '') s2
                     else emit Fail s2)
                | (Inr activeBranches, s2) \<Rightarrow>
                    (case updateBranches w repository activeBranches [] s2 of
                       (failedUpdates, s3) \<Rightarrow>
                         (None, emit (report repository activeBranches failedUpdates) s3)))))"

section \<open>The update command: discovery and the run over all repositories\<close>

definition warnThreshold :: nat where
  "warnThreshold = 10"

definition expandPathWithTilde :: "world \<Rightarrow> string \<Rightarrow> error + string" where
  "expandPathWithTilde w rootDir =
     (case userCurrent w of
        Inl n \<Rightarrow> Inl (LibError n)
      | Inr dir \<Rightarrow>
          Inr (if rootDir = ''~'' then dir
               else if strings_HasPrefix rootDir ''~/'' then filepath_Join w dir (drop 2 rootDir)
               else rootDir))"

definition find_git :: "string \<Rightarrow> invocation" where
  "find_git rootDir =
     \<lparr>Dir = [],
      Args = [''find'', ''-Ls'', strings_TrimSuffix rootDir ''/'', ''-type'', ''d'',
              ''-name'', ''.git'']\<rparr>"

fun appendRepositories :: "string list \<Rightarrow> string list \<Rightarrow> string list" where
  "appendRepositories [] repositories = repositories"
| "appendRepositories (path # rest) repositories =
     (if \<not> strings_HasSuffix path ''.git'' then appendRepositories rest repositories
      else appendRepositories rest (repositories @ [strings_TrimSuffix path ''/.git'']))"

definition findRepositories ::
  "world \<Rightarrow> string \<Rightarrow> state \<Rightarrow> (error + string list) \<times> state" where
  "findRepositories w rootDir0 s =
     (let rootDir = (if rootDir0 = [] then ''.'' else rootDir0)
      in case Output w (find_git rootDir) s of
           (Inl err, s1) \<Rightarrow> (Inl err, s1)
         | (Inr found, s1) \<Rightarrow>
             (let repositories = appendRepositories (strings_Split found newline) []
              in if length repositories = 0 then (Inr [], emit (NoRepositories rootDir) s1)
                 else (Inr repositories, s1)))"

text \<open>The loop of \<open>RunE\<close>: the result of \<open>updateRepository\<close> is dropped.\<close>

fun RunE_loop :: "world \<Rightarrow> config \<Rightarrow> string list \<Rightarrow> state \<Rightarrow> state" where
  "RunE_loop w cfg [] s = s"
| "RunE_loop w cfg (repo # rest) s = RunE_loop w cfg rest (snd (updateRepository w cfg repo s))"

definition confirm_Show :: "world \<Rightarrow> nat \<Rightarrow> state \<Rightarrow> bool \<times> error option" where
  "confirm_Show w n s =
     (case confirmShow w (trace s) n of
        Inl e \<Rightarrow> (False, Some (LibError e))
      | Inr ok \<Rightarrow> (ok, None))"

definition RunE :: "world \<Rightarrow> config \<Rightarrow> state \<Rightarrow> error option \<times> state" where
  "RunE w cfg s =
     (case expandPathWithTilde w (pathPrefix cfg) of
        Inl err \<Rightarrow> (Some err, s)
      | Inr rootDir \<Rightarrow>
          (case spinner_Start w ''Finding repositories'' s of
             (Some err, s1) \<Rightarrow> (Some err, s1)
           | (None, s1) \<Rightarrow>
               (case findRepositories w rootDir s1 of
                  (Inl err, s2) \<Rightarrow> (Some err, s2)
                | (Inr repositories, s2) \<Rightarrow>
                    (let s3 = emit (Found (length repositories)) s2
                     in if length repositories > warnThreshold
                        then (case confirm_Show w (length repositories) s3 of
                                (ok, err) \<Rightarrow>
                                  if err \<noteq> None \<or> \<not> ok then (err, s3)
                                  else (None, RunE_loop w cfg repositories s3))
                        else (None, RunE_loop w cfg repositories s3)))))"

text \<open>Observer of a display: the texts the spinner was started with, in order.\<close>

fun startsOf :: "event list \<Rightarrow> string list" where
  "startsOf [] = []"
| "startsOf (Start text # es) = text # startsOf es"
| "startsOf (e # es) = startsOf es"

section \<open>The \<open>repository\<close> type of \<open>repository.go\<close>\<close>

record repository =
  path :: string
  remoteUpdated :: bool

definition newRepository :: "string \<Rightarrow> repository" where
  "newRepository p = \<lparr>path = p, remoteUpdated = False\<rparr>"

text \<open>
  The methods have a pointer receiver, so each returns the repository as it leaves it,
  next to its result and the state.
\<close>

definition repository_IsDirty ::
  "world \<Rightarrow> repository \<Rightarrow> state \<Rightarrow> (error + bool) \<times> repository \<times> state" where
  "repository_IsDirty w r s =
     (case Output w (git_status (path r)) s of
        (Inl err, s1) \<Rightarrow> (Inl err, r, s1)
      | (Inr changes, s1) \<Rightarrow> (Inr (length changes > 0), r, s1))"

definition repository_Stash ::
  "world \<Rightarrow> repository \<Rightarrow> state \<Rightarrow> error option \<times> repository \<times> state" where
  "repository_Stash w r s = (case Run w (git_stash (path r)) s of (err, s1) \<Rightarrow> (err, r, s1))"

definition repository_updateRemote ::
  "world \<Rightarrow> repository \<Rightarrow> state \<Rightarrow> error option \<times> repository \<times> state" where
  "repository_updateRemote w r s =
     (if remoteUpdated r then (None, r, s)
      else (case Run w (git_fetch (path r)) s of (err, s1) \<Rightarrow> (err, r, s1)))"

definition repository_updateBranch ::
  "world \<Rightarrow> repository \<Rightarrow> string \<Rightarrow> state \<Rightarrow> error option \<times> repository \<times> state" where
  "repository_updateBranch w r branch s =
     (case Run w (git_checkout (path r) branch) s of
        (Some err, s1) \<Rightarrow> (Some err, r, s1)
      | (None, s1) \<Rightarrow> (case Run w (git_pull (path r)) s1 of (err, s2) \<Rightarrow> (err, r, s2)))"

fun appendNonEmpty :: "string list \<Rightarrow> string list \<Rightarrow> string list" where
  "appendNonEmpty [] branchesList = branchesList"
| "appendNonEmpty (branch # rest) branchesList =
     (if branch = [] then appendNonEmpty rest branchesList
      else appendNonEmpty rest (branchesList @ [branch]))"

definition repository_GetAllBranches ::
  "world \<Rightarrow> repository \<Rightarrow> state \<Rightarrow> (error + string list) \<times> repository \<times> state" where
  "repository_GetAllBranches w r s =
     (case repository_updateRemote w r s of
        (Some err, r1, s1) \<Rightarrow> (Inl err, r1, s1)
      | (None, r1, s1) \<Rightarrow>
          (case Output w (git_branch (path r1)) s1 of
             (Inl err, s2) \<Rightarrow> (Inl err, r1, s2)
           | (Inr branches, s2) \<Rightarrow>
               (Inr (appendNonEmpty (strings_Split branches newline) []), r1, s2)))"

text \<open>The loop of \<open>Update\<close> returns at the first branch that fails.\<close>

fun repository_Update_loop ::
  "world \<Rightarrow> repository \<Rightarrow> string list \<Rightarrow> state \<Rightarrow> error option \<times> repository \<times> state" where
  "repository_Update_loop w r [] s = (None, r, s)"
| "repository_Update_loop w r (branch # rest) s =
     (case repository_updateBranch w r branch s of
        (Some err, r1, s1) \<Rightarrow> (Some err, r1, s1)
      | (None, r1, s1) \<Rightarrow> repository_Update_loop w r1 rest s1)"

definition repository_Update ::
  "world \<Rightarrow> repository \<Rightarrow> string list \<Rightarrow> state \<Rightarrow> error option \<times> repository \<times> state" where
  "repository_Update w r brnaches s =
     (case repository_updateRemote w r s of
        (Some err, r1, s1) \<Rightarrow> (Some err, r1, s1)
      | (None, r1, s1) \<Rightarrow> repository_Update_loop w r1 brnaches s1)"

text \<open>
  Any sequence of calls on one repository value: the operations of the type, applied in
  order, whatever each returns.
\<close>

datatype operation =
    OpIsDirty
  | OpStash
  | OpGetAllBranches
  | OpUpdate "string list"
  | OpUpdateRemote
  | OpUpdateBranch string

fun apply_operation :: "world \<Rightarrow> operation \<Rightarrow> repository \<times> state \<Rightarrow> repository \<times> state" where
  "apply_operation w OpIsDirty (r, s) = snd (repository_IsDirty w r s)"
| "apply_operation w OpStash (r, s) = snd (repository_Stash w r s)"
| "apply_operation w OpGetAllBranches (r, s) = snd (repository_GetAllBranches w r s)"
| "apply_operation w (OpUpdate bs) (r, s) = snd (repository_Update w r bs s)"
| "apply_operation w OpUpdateRemote (r, s) = snd (repository_updateRemote w r s)"
| "apply_operation w (OpUpdateBranch b) (r, s) = snd (repository_updateBranch w r b s)"

fun apply_operations ::
  "world \<Rightarrow> operation list \<Rightarrow> repository \<times> state \<Rightarrow> repository \<times> state" where
  "apply_operations w [] rs = rs"
| "apply_operations w (operation # rest) rs =
     apply_operations w rest (apply_operation w operation rs)"

section \<open>The earlier variant of the update command\<close>

text \<open>
  The sources hold a second, earlier \<open>updateRepository\<close> and \<open>RunE\<close>, which print
  plain lines and work through the \<open>repository\<close> type. They are modelled under the
  names \<open>updateRepository_plain\<close> and \<open>RunE_loop_plain\<close>. After the dirty check the
  earlier \<open>updateRepository\<close> fetches, takes the requested branches or all of them, and
  hands them to \<open>Update\<close>.
\<close>

definition tab :: char where
  "tab = CHR 0x09"

definition updateRepository_plain_fetch ::
  "world \<Rightarrow> config \<Rightarrow> repository \<Rightarrow> state \<Rightarrow> error option \<times> state" where
  "updateRepository_plain_fetch w cfg repo s =
     (case Run w (git_fetch (path repo)) s of
        (Some err, s1) \<Rightarrow> (Some err, s1)
      | (None, s1) \<Rightarrow>
          (case (if allBranches cfg then repository_GetAllBranches w repo s1
                 else (Inr (requestedBranches cfg), repo, s1)) of
             (Inl err, repo1, s2) \<Rightarrow> (Some err, s2)
           | (Inr activeBranches, repo1, s2) \<Rightarrow>
               (case repository_Update w repo1 activeBranches
                       (emit (Printf_updating (length activeBranches)) s2) of
                  (err, repo2, s3) \<Rightarrow> (err, s3))))"

definition updateRepository_plain ::
  "world \<Rightarrow> config \<Rightarrow> string \<Rightarrow> state \<Rightarrow> error option \<times> state" where
  "updateRepository_plain w cfg repository s =
     (case repository_IsDirty w (newRepository repository) (emit (Println repository) s) of
        (Inl err, repo, s1) \<Rightarrow> (Some err, s1)
      | (Inr dirty, repo, s1) \<Rightarrow>
          if dirty
          then (if stashChanges cfg
                then (case repository_Stash w repo s1 of
                        (Some err, repo1, s2) \<Rightarrow> (Some err, s2)
                      | (None, repo1, s2) \<Rightarrow>
                          updateRepository_plain_fetch w cfg repo1
                            (emit (Println (tab # ''stashed changes'')) s2))
                else (None, emit (Println (tab # ''dirty, skipping'')) s1))
          else updateRepository_plain_fetch w cfg repo s1)"

text \<open>The loop of the earlier \<open>RunE\<close> returns the first error.\<close>

fun RunE_loop_plain ::
  "world \<Rightarrow> config \<Rightarrow> string list \<Rightarrow> state \<Rightarrow> error option \<times> state" where
  "RunE_loop_plain w cfg [] s = (None, s)"
| "RunE_loop_plain w cfg (repository # rest) s =
     (case updateRepository_plain w cfg repository s of
        (Some err, s1) \<Rightarrow> (Some err, s1)
      | (None, s1) \<Rightarrow> RunE_loop_plain w cfg rest s1)"

section \<open>Observers for the statements\<close>

text \<open>What a call added to the trace and to the display.\<close>

definition newTrace :: "state \<Rightarrow> state \<Rightarrow> invocation list" where
  "newTrace s s' = drop (length (trace s)) (trace s')"

definition newDisplay :: "state \<Rightarrow> state \<Rightarrow> event list" where
  "newDisplay s s' = drop (length (display s)) (display s')"

text \<open>
  The per-branch loop again, as an observer: each selected branch with what its
  \<open>updateBranch\<close> call returned, the state threaded as the loop threads it.
\<close>

fun branchResults ::
  "world \<Rightarrow> string \<Rightarrow> string list \<Rightarrow> state \<Rightarrow> (string \<times> error option) list" where
  "branchResults w repository [] s = []"
| "branchResults w repository (branch # rest) s =
     (case updateBranch w repository branch (emit (UpdateText branch repository) s) of
        (err, s1) \<Rightarrow> (branch, err) # branchResults w repository rest s1)"

text \<open>The subprocesses of one repository other than the status query and the stash.\<close>

definition otherCommands :: "string \<Rightarrow> invocation set" where
  "otherCommands repo =
     insert (git_fetch repo) (insert (git_branch_short repo)
       (insert (git_pull repo) (range (git_checkout repo))))"


text \<open>
  The per-branch loop once more, as an observer of its subprocesses: each selected branch
  with whether its checkout succeeded, the state threaded as the loop threads it, and the
  subprocesses that one such branch stands for.
\<close>

fun checkoutResults ::
  "world \<Rightarrow> string \<Rightarrow> string list \<Rightarrow> state \<Rightarrow> (string \<times> bool) list" where
  "checkoutResults w repository [] s = []"
| "checkoutResults w repository (branch # rest) s =
     (branch, (case exec w (trace s) (git_checkout repository branch) of
                 Inl n \<Rightarrow> False
               | Inr out \<Rightarrow> True)) #
     checkoutResults w repository rest
       (snd (updateBranch w repository branch (emit (UpdateText branch repository) s)))"

definition branchCommands :: "string \<Rightarrow> string \<times> bool \<Rightarrow> invocation list" where
  "branchCommands repository x =
     (if snd x then [git_checkout repository (fst x), git_pull repository]
      else [git_checkout repository (fst x)])"

text \<open>
  The filtered local-branch list of a listing output: the lines that the loop of
  \<open>fetchBranchesToUpdate\<close> does not skip.
\<close>

definition filteredBranches :: "string \<Rightarrow> string list" where
  "filteredBranches branches =
     filter (\<lambda>branch. \<not> skipLine branch) (strings_Split branches newline)"

text \<open>
  The lines that are not branches in the words of the specification, for the comparison
  with \<open>skipLine\<close>: empty, beginning with one of the three prefixes, or containing
  white space, where white space is any of tab, line feed, vertical tab, form feed,
  carriage return and space.
\<close>

definition spec_whitespace :: "char \<Rightarrow> bool" where
  "spec_whitespace c =
     (c = CHR 0x09 \<or> c = CHR 0x0A \<or> c = CHR 0x0B \<or> c = CHR 0x0C \<or> c = CHR 0x0D \<or>
      c = CHR 0x20)"

definition spec_discarded :: "string \<Rightarrow> bool" where
  "spec_discarded line =
     (line = [] \<or> prefix ''refs/'' line \<or> prefix ''heads/'' line \<or>
      prefix ''origin/'' line \<or> list_ex spec_whitespace line)"

text \<open>
  The selection of the explicit-list mode in the words of the specification, for the
  comparison with the loop: the subset of the filtered list whose names appear in the
  requested names, in the order of the filtered list.
\<close>

definition spec_ExplicitList :: "string list \<Rightarrow> string list \<Rightarrow> string list" where
  "spec_ExplicitList filtered names = filter (\<lambda>branch. branch \<in> set names) filtered"

section \<open>Concrete worlds and inputs for the examples\<close>

definition init :: state where
  "init = \<lparr>trace = [], display = []\<rparr>"

text \<open>A world in which every subprocess succeeds and prints nothing.\<close>

definition quiet :: world where
  "quiet = \<lparr>exec = (\<lambda>t c. Inr []), spinnerStart = (\<lambda>t text. None),
            confirmShow = (\<lambda>t n. Inr True), userCurrent = Inr ''/home/u'',
            filepath_Join = (\<lambda>a b. a @ ''/'' @ b)\<rparr>"

text \<open>
  A world whose status query prints \<open>changes\<close>, whose branch listing prints
  \<open>branches\<close>, and in which the checkout of every branch in \<open>broken\<close> fails;
  everything else succeeds and prints nothing.
\<close>

definition sample :: "string \<Rightarrow> string \<Rightarrow> string list \<Rightarrow> world" where
  "sample changes branches broken =
     quiet\<lparr>exec := (\<lambda>t c.
        if Args c = [''git'', ''status'', ''--porcelain''] then Inr changes
        else if Args c = [''git'', ''branch'', ''-l'', ''--format=%(refname:short)'']
        then Inr branches
        else (case Args c of
                [g, sub, branch] \<Rightarrow>
                  if sub = ''checkout'' \<and> branch \<in> set broken then Inl 1 else Inr []
              | _ \<Rightarrow> Inr []))\<rparr>"

text \<open>The flags at their default values.\<close>

definition defaults :: config where
  "defaults = \<lparr>pathPrefix = [], requestedBranches = [''main'', ''master''],
               allBranches = False, stashChanges = False\<rparr>"

text \<open>The output of a branch listing with the three branches a, b and c.\<close>

definition abc :: string where
  "abc = ''a'' @ [newline] @ ''b'' @ [newline] @ ''c'' @ [newline]"

text \<open>
  A world with two repositories, x and y: every subprocess run in x fails, y has the one
  branch main and everything succeeds there.
\<close>

definition twoRepos :: world where
  "twoRepos =
     quiet\<lparr>exec := (\<lambda>t c.
        if Args c = Args (find_git ''.'')
        then Inr (''./x/.git'' @ [newline] @ ''./y/.git'' @ [newline])
        else if Dir c = ''./x'' then Inl 1
        else if Args c = Args (git_branch_short []) then Inr (''main'' @ [newline])
        else Inr [])\<rparr>"

text \<open>Listing outputs and a line for the examples.\<close>

definition noisy :: string where
  "noisy = ''refs/heads/main'' @ [newline] @ ''origin/main'' @ [newline] @ ''  '' @ [newline] @
           ''main'' @ [newline]"

definition main_feature :: string where
  "main_feature = ''main'' @ [newline] @ ''feature-x'' @ [newline]"

definition main_only :: string where
  "main_only = ''main'' @ [newline]"

definition main_twice :: string where
  "main_twice = ''main'' @ [newline] @ ''main'' @ [newline]"

definition a_tab_b :: string where
  "a_tab_b = ''a'' @ [tab] @ ''b''"

section \<open>Properties\<close>

lemma checkoutsOf_append: "checkoutsOf (xs @ ys) = checkoutsOf xs @ checkoutsOf ys"
  by (induction xs) (auto split: list.splits)

subsection \<open>The state after one step\<close>

lemma trace_emit [simp]: "trace (emit e s) = trace s"
  by (simp add: emit_def)

lemma display_emit [simp]: "display (emit e s) = display s @ [e]"
  by (simp add: emit_def)

lemma trace_Run [simp]: "trace (snd (Run w c s)) = trace s @ [c]"
  by (simp add: Run_def)

lemma display_Run [simp]: "display (snd (Run w c s)) = display s"
  by (simp add: Run_def)

lemma trace_Output [simp]: "trace (snd (Output w c s)) = trace s @ [c]"
  by (simp add: Output_def)

lemma display_Output [simp]: "display (snd (Output w c s)) = display s"
  by (simp add: Output_def)

subsection \<open>Updating one branch\<close>

text \<open>
  C8. For every branch name, updating a branch runs the checkout first and the pull
  second. When the checkout fails, its error is returned and the only subprocess run is
  the checkout: the pull is not attempted. This holds for \<open>updateBranch\<close> of the
  update command and for the method \<open>updateBranch\<close> of \<open>repository\<close> alike.
\<close>

theorem updateBranch_checkout_then_pull:
  "(exec w (trace s) (git_checkout (path r) branch) = Inl n \<longrightarrow>
      updateBranch w (path r) branch s =
        (Some (ExecError n), s\<lparr>trace := trace s @ [git_checkout (path r) branch]\<rparr>) \<and>
      repository_updateBranch w r branch s =
        (Some (ExecError n), r, s\<lparr>trace := trace s @ [git_checkout (path r) branch]\<rparr>)) \<and>
   (exec w (trace s) (git_checkout (path r) branch) = Inr out \<longrightarrow>
      updateBranch w (path r) branch s =
        Run w (git_pull (path r)) (s\<lparr>trace := trace s @ [git_checkout (path r) branch]\<rparr>) \<and>
      trace (snd (updateBranch w (path r) branch s)) =
        trace s @ [git_checkout (path r) branch, git_pull (path r)] \<and>
      repository_updateBranch w r branch s =
        (fst (updateBranch w (path r) branch s), r, snd (updateBranch w (path r) branch s))) \<and>
   git_pull (path r) \<noteq> git_checkout (path r) branch"
  by (simp add: updateBranch_def repository_updateBranch_def Run_def git_pull_def
      git_checkout_def split: sum.splits)

theorem updateBranch_checkout_then_pull_witness:
  "exec (sample [] [] [''b'']) (trace init) (git_checkout (path (newRepository ''r'')) ''b'') =
     Inl 1 \<and>
   updateBranch (sample [] [] [''b'']) ''r'' ''b'' init =
     (Some (ExecError 1), \<lparr>trace = [git_checkout ''r'' ''b''], display = []\<rparr>) \<and>
   exec (sample [] [] [''b'']) (trace init) (git_checkout (path (newRepository ''r'')) ''a'') =
     Inr [] \<and>
   updateBranch (sample [] [] [''b'']) ''r'' ''a'' init =
     (None, \<lparr>trace = [git_checkout ''r'' ''a'', git_pull ''r''], display = []\<rparr>)"
  using updateBranch_checkout_then_pull
          [of "sample [] [] [''b'']" init "newRepository ''r''" "''b''" 1 "[]"]
        updateBranch_checkout_then_pull
          [of "sample [] [] [''b'']" init "newRepository ''r''" "''a''" 1 "[]"]
  by (simp add: sample_def quiet_def init_def newRepository_def git_checkout_def Run_def
      git_pull_def)

subsection \<open>The \<open>remoteUpdated\<close> field\<close>

lemma same_IsDirty: "fst (snd (repository_IsDirty w r s)) = r"
  by (simp add: repository_IsDirty_def split: prod.splits sum.splits)

lemma same_Stash: "fst (snd (repository_Stash w r s)) = r"
  by (simp add: repository_Stash_def split: prod.splits)

lemma same_updateRemote: "fst (snd (repository_updateRemote w r s)) = r"
  by (simp add: repository_updateRemote_def split: prod.splits)

lemma same_updateBranch: "fst (snd (repository_updateBranch w r b s)) = r"
  by (simp add: repository_updateBranch_def split: prod.splits option.splits)

lemma same_GetAllBranches: "fst (snd (repository_GetAllBranches w r s)) = r"
  using same_updateRemote [of w r s]
  by (auto simp add: repository_GetAllBranches_def split: prod.splits option.splits sum.splits)

lemma same_Update_loop: "fst (snd (repository_Update_loop w r bs s)) = r"
proof (induction bs arbitrary: r s)
  case Nil
  show ?case by simp
next
  case (Cons b bs)
  show ?case
    using same_updateBranch [of w r b s] Cons.IH
    by (auto split: prod.splits option.splits)
qed

lemma same_Update: "fst (snd (repository_Update w r bs s)) = r"
  using same_updateRemote [of w r s] same_Update_loop
  by (auto simp add: repository_Update_def split: prod.splits option.splits)

lemma same_apply_operation: "fst (apply_operation w operation (r, s)) = r"
  by (cases operation)
    (simp_all add: same_IsDirty same_Stash same_updateRemote same_updateBranch
      same_GetAllBranches same_Update)

lemma same_apply_operations: "fst (apply_operations w operations (r, s)) = r"
proof (induction operations arbitrary: s)
  case Nil
  show ?case by simp
next
  case (Cons operation rest)
  obtain s1 where "apply_operation w operation (r, s) = (r, s1)"
    using same_apply_operation [of w operation r s]
    by (cases "apply_operation w operation (r, s)") simp
  then show ?case
    using Cons.IH by simp
qed

text \<open>
  C9. A repository made by \<open>newRepository\<close> has \<open>remoteUpdated\<close> false, no operation
  of the type assigns the field, so after any sequence of operations it is still false,
  and a call of \<open>updateRemote\<close> then runs the fetch-all subprocess: it returns the
  result of that subprocess and the trace has grown by it.
\<close>

theorem remoteUpdated_stays_False:
  "remoteUpdated (newRepository p) = False \<and>
   remoteUpdated (fst (apply_operations w operations (newRepository p, s))) = False \<and>
   repository_updateRemote w (fst (apply_operations w operations (newRepository p, s))) s' =
     (fst (Run w (git_fetch p) s'), newRepository p, s'\<lparr>trace := trace s' @ [git_fetch p]\<rparr>)"
  by (simp add: same_apply_operations repository_updateRemote_def newRepository_def Run_def
      split: prod.splits)

text \<open>
  C7, as the code behaves. Two calls of \<open>updateRemote\<close> in succession on the repository
  made by \<open>newRepository\<close>, in a world where every subprocess succeeds: the first
  returns no error and leaves \<open>remoteUpdated\<close> false, and after the second the trace
  holds two fetch-all subprocesses, not one.
\<close>

theorem updateRemote_twice_fetches_twice:
  "repository_updateRemote quiet (newRepository ''r'') init =
     (None, newRepository ''r'', \<lparr>trace = [git_fetch ''r''], display = []\<rparr>) \<and>
   repository_updateRemote quiet (newRepository ''r'')
       \<lparr>trace = [git_fetch ''r''], display = []\<rparr> =
     (None, newRepository ''r'', \<lparr>trace = [git_fetch ''r'', git_fetch ''r''], display = []\<rparr>)"
  by (simp add: repository_updateRemote_def newRepository_def Run_def quiet_def init_def)

subsection \<open>What each step adds to the trace and to the display\<close>

lemma newTrace_append: "trace s' = trace s @ xs \<Longrightarrow> newTrace s s' = xs"
  by (simp add: newTrace_def)

lemma newDisplay_append: "display s' = display s @ xs \<Longrightarrow> newDisplay s s' = xs"
  by (simp add: newDisplay_def)

lemma display_updateBranch [simp]: "display (snd (updateBranch w repo b s)) = display s"
  by (simp add: updateBranch_def split: prod.splits option.splits)
    (metis display_Run snd_conv)

lemma trace_updateBranch:
  "trace (snd (updateBranch w repo b s)) = trace s @ [git_checkout repo b] \<or>
   trace (snd (updateBranch w repo b s)) = trace s @ [git_checkout repo b, git_pull repo]"
  by (simp add: updateBranch_def Run_def split: sum.splits)

lemma trace_updateBranch_checkouts:
  "\<exists>ys. trace (snd (updateBranch w repo b s)) = trace s @ ys \<and> checkoutsOf ys = [b] \<and>
        set ys \<subseteq> {git_pull repo, git_checkout repo b}"
  by (simp add: updateBranch_def Run_def git_checkout_def git_pull_def split: sum.splits)

lemma trace_updateBranches:
  "\<exists>xs. trace (snd (updateBranches w repo bs failed s)) = trace s @ xs \<and>
        checkoutsOf xs = bs \<and>
        set xs \<subseteq> insert (git_pull repo) (git_checkout repo ` set bs)"
proof (induction bs arbitrary: failed s)
  case Nil
  show ?case by simp
next
  case (Cons b bs)
  obtain e s1 where step: "updateBranch w repo b (emit (UpdateText b repo) s) = (e, s1)"
    by (cases "updateBranch w repo b (emit (UpdateText b repo) s)")
  obtain ys where ys: "trace s1 = trace s @ ys" "checkoutsOf ys = [b]"
    "set ys \<subseteq> {git_pull repo, git_checkout repo b}"
    using trace_updateBranch_checkouts [of w repo b "emit (UpdateText b repo) s"] step
    by auto
  obtain failed' where loop: "updateBranches w repo (b # bs) failed s =
      updateBranches w repo bs failed' s1"
    using step by (cases e) auto
  obtain xs where xs: "trace (snd (updateBranches w repo bs failed' s1)) = trace s1 @ xs"
    "checkoutsOf xs = bs" "set xs \<subseteq> insert (git_pull repo) (git_checkout repo ` set bs)"
    using Cons.IH [of failed' s1] by blast
  have "trace (snd (updateBranches w repo (b # bs) failed s)) = trace s @ (ys @ xs)"
    using loop xs(1) ys(1) by simp
  moreover have "checkoutsOf (ys @ xs) = b # bs"
    using xs(2) ys(2) by (simp add: checkoutsOf_append)
  moreover have "set (ys @ xs) \<subseteq> insert (git_pull repo) (git_checkout repo ` set (b # bs))"
    using xs(3) ys(3) by auto
  ultimately show ?case by blast
qed

lemma display_updateBranches:
  "display (snd (updateBranches w repo bs failed s)) =
     display s @ map (\<lambda>b. UpdateText b repo) bs"
proof (induction bs arbitrary: failed s)
  case Nil
  show ?case by simp
next
  case (Cons b bs)
  obtain e s1 where step: "updateBranch w repo b (emit (UpdateText b repo) s) = (e, s1)"
    by (cases "updateBranch w repo b (emit (UpdateText b repo) s)")
  have "display s1 = display s @ [UpdateText b repo]"
    using display_updateBranch [of w repo b "emit (UpdateText b repo) s"] step by simp
  then show ?case
    using step Cons.IH by (cases e) simp_all
qed

lemma trace_fetchBranchesToUpdate:
  "\<exists>xs. trace (snd (fetchBranchesToUpdate w cfg repo s)) = trace s @ xs \<and>
        set xs \<subseteq> {git_fetch repo, git_branch_short repo}"
  by (auto simp add: fetchBranchesToUpdate_def Run_def Output_def Let_def split: sum.splits)

lemma display_fetchBranchesToUpdate [simp]:
  "display (snd (fetchBranchesToUpdate w cfg repo s)) = display s"
  by (auto simp add: fetchBranchesToUpdate_def Run_def Output_def Let_def split: sum.splits)

lemma stashIfDirty_cases:
  "stashIfDirty w cfg repo s =
     (case exec w (trace s) (git_status repo) of
        Inl n \<Rightarrow> (Some (ExecError n), s\<lparr>trace := trace s @ [git_status repo]\<rparr>)
      | Inr changes \<Rightarrow>
          if changes = [] then (None, s\<lparr>trace := trace s @ [git_status repo]\<rparr>)
          else if \<not> stashChanges cfg
          then (Some errStashNotAllowed, s\<lparr>trace := trace s @ [git_status repo]\<rparr>)
          else (fst (Run w (git_stash repo) (s\<lparr>trace := trace s @ [git_status repo]\<rparr>)),
                s\<lparr>trace := trace s @ [git_status repo, git_stash repo]\<rparr>))"
  by (simp add: stashIfDirty_def Output_def Run_def split: sum.splits)

subsection \<open>The dirty working tree\<close>

lemma trace_stashIfDirty:
  "trace (snd (stashIfDirty w cfg repo s)) =
     trace s @ git_status repo #
       (if (\<exists>changes. exec w (trace s) (git_status repo) = Inr changes \<and> changes \<noteq> [] \<and>
              stashChanges cfg)
        then [git_stash repo] else [])"
  by (auto simp add: stashIfDirty_cases split: sum.splits)

lemma display_stashIfDirty [simp]: "display (snd (stashIfDirty w cfg repo s)) = display s"
  by (auto simp add: stashIfDirty_cases split: sum.splits)

lemma trace_updateRepository:
  "\<exists>xs. trace (snd (updateRepository w cfg repo s)) =
          trace s @
            (if spinnerStart w (trace s) repo = None
             then newTrace s (snd (stashIfDirty w cfg repo (emit (Start repo) s))) @ xs
             else []) \<and>
        set xs \<subseteq> otherCommands repo"
proof (cases "spinnerStart w (trace s) repo")
  case (Some n)
  then show ?thesis
    by (intro exI [of _ "[]"]) (simp add: updateRepository_def spinner_Start_def)
next
  case None
  define s0 where "s0 = emit (Start repo) s"
  obtain e1 s1 where stash: "stashIfDirty w cfg repo s0 = (e1, s1)"
    by (cases "stashIfDirty w cfg repo s0")
  have t1: "trace s1 = trace s @ newTrace s s1"
    using trace_stashIfDirty [of w cfg repo s0] stash
    by (simp add: s0_def newTrace_def)
  show ?thesis
  proof (cases e1)
    case (Some err)
    then have "trace (snd (updateRepository w cfg repo s)) = trace s1"
      using None stash by (simp add: updateRepository_def spinner_Start_def s0_def)
    then have "trace (snd (updateRepository w cfg repo s)) = trace s @ newTrace s s1 @ []"
      using t1 by simp
    then show ?thesis
      using None stash unfolding s0_def by (intro exI [of _ "[]"]) simp
  next
    case ok: None
    obtain r2 s2 where fetch: "fetchBranchesToUpdate w cfg repo s1 = (r2, s2)"
      by (cases "fetchBranchesToUpdate w cfg repo s1")
    obtain xs where xs: "trace s2 = trace s1 @ xs"
      "set xs \<subseteq> {git_fetch repo, git_branch_short repo}"
      using trace_fetchBranchesToUpdate [of w cfg repo s1] fetch by auto
    show ?thesis
    proof (cases r2)
      case (Inl err)
      then have "trace (snd (updateRepository w cfg repo s)) = trace s2"
        using None stash ok fetch by (simp add: updateRepository_def spinner_Start_def s0_def)
      then have "trace (snd (updateRepository w cfg repo s)) = trace s @ newTrace s s1 @ xs"
        using t1 xs(1) by simp
      moreover have "set xs \<subseteq> otherCommands repo"
        using xs(2) by (auto simp add: otherCommands_def)
      ultimately show ?thesis
        using None stash unfolding s0_def by (intro exI [of _ xs]) simp
    next
      case (Inr bs)
      obtain failed s3 where loop: "updateBranches w repo bs [] s2 = (failed, s3)"
        by (cases "updateBranches w repo bs [] s2")
      obtain ys where ys: "trace s3 = trace s2 @ ys"
        "set ys \<subseteq> insert (git_pull repo) (git_checkout repo ` set bs)"
        using trace_updateBranches [of w repo bs "[]" s2] loop by auto
      have "trace (snd (updateRepository w cfg repo s)) = trace s3"
        using None stash ok fetch Inr loop
        by (simp add: updateRepository_def spinner_Start_def s0_def)
      then have "trace (snd (updateRepository w cfg repo s)) =
          trace s @ newTrace s s1 @ (xs @ ys)"
        using t1 xs(1) ys(1) by simp
      moreover have "set (xs @ ys) \<subseteq> otherCommands repo"
        using xs(2) ys(2) by (auto simp add: otherCommands_def)
      ultimately show ?thesis
        using None stash unfolding s0_def by (intro exI [of _ "xs @ ys"]) simp
    qed
  qed
qed

lemma stash_not_other: "c \<in> otherCommands repo \<Longrightarrow> Args c \<noteq> [''git'', ''stash'']"
  by (auto simp add: otherCommands_def git_fetch_def git_branch_short_def git_pull_def
      git_checkout_def)

lemma stash_in_updateRepository:
  "[''git'', ''stash''] \<in> Args ` set (newTrace s (snd (updateRepository w cfg repo s))) \<longleftrightarrow>
     spinnerStart w (trace s) repo = None \<and>
     (\<exists>changes. exec w (trace s) (git_status repo) = Inr changes \<and> changes \<noteq> [] \<and>
        stashChanges cfg)"
proof -
  define dirty where "dirty \<longleftrightarrow>
    (\<exists>changes. exec w (trace s) (git_status repo) = Inr changes \<and> changes \<noteq> [] \<and>
       stashChanges cfg)"
  obtain xs where xs: "trace (snd (updateRepository w cfg repo s)) =
          trace s @
            (if spinnerStart w (trace s) repo = None
             then newTrace s (snd (stashIfDirty w cfg repo (emit (Start repo) s))) @ xs
             else [])" "set xs \<subseteq> otherCommands repo"
    using trace_updateRepository [of w cfg repo s] by blast
  have no: "[''git'', ''stash''] \<notin> Args ` set xs"
  proof
    assume "[''git'', ''stash''] \<in> Args ` set xs"
    then obtain c where c: "c \<in> set xs" "Args c = [''git'', ''stash'']"
      by (auto simp add: image_iff)
    from c(1) xs(2) have "c \<in> otherCommands repo" ..
    from stash_not_other [OF this] c(2) show False ..
  qed
  have st: "newTrace s (snd (stashIfDirty w cfg repo (emit (Start repo) s))) =
     git_status repo # (if dirty then [git_stash repo] else [])"
    using trace_stashIfDirty [of w cfg repo "emit (Start repo) s"]
    by (simp add: newTrace_def dirty_def)
  have new: "newTrace s (snd (updateRepository w cfg repo s)) =
      (if spinnerStart w (trace s) repo = None
       then (git_status repo # (if dirty then [git_stash repo] else [])) @ xs else [])"
    using newTrace_append [OF xs(1)] st by simp
  have "[''git'', ''stash''] \<in> Args ` set (newTrace s (snd (updateRepository w cfg repo s)))
      \<longleftrightarrow> spinnerStart w (trace s) repo = None \<and> dirty"
  proof (cases "spinnerStart w (trace s) repo")
    case (Some n)
    then show ?thesis unfolding new by simp
  next
    case None
    show ?thesis
    proof (cases dirty)
      case True
      then show ?thesis
        unfolding new using None by (simp add: git_stash_def)
    next
      case False
      then show ?thesis
        unfolding new using None no by (simp add: git_status_def)
    qed
  qed
  then show ?thesis
    unfolding dirty_def .
qed

lemma skipped_updateRepository:
  assumes "spinnerStart w (trace s) repo = None"
    and "exec w (trace s) (git_status repo) = Inr changes"
    and "changes \<noteq> []"
    and "\<not> stashChanges cfg"
  shows "updateRepository w cfg repo s =
    (Some errStashNotAllowed,
     s\<lparr>trace := trace s @ [git_status repo],
       display := display s @ [Start repo, Info ''SKIPPED'']\<rparr>)"
  using assms
  by (simp add: updateRepository_def spinner_Start_def stashIfDirty_cases emit_def)

text \<open>
  C6. In the procedure for one repository the stash subprocess runs exactly when the
  spinner started, the status query printed something and stashing is enabled: so only
  when the status output is non-empty and stashing is enabled. A repository whose status
  output is empty never triggers the stash. A repository whose status output is non-empty,
  with stashing disabled, is reported as SKIPPED, the error returned is
  \<open>errStashNotAllowed\<close>, and the status query is the only subprocess run: no fetch,
  checkout or pull.
\<close>

theorem stash_only_when_dirty_and_allowed:
  "([''git'', ''stash''] \<in> Args ` set (newTrace s (snd (updateRepository w cfg repo s))) \<longleftrightarrow>
      spinnerStart w (trace s) repo = None \<and>
      (\<exists>changes. exec w (trace s) (git_status repo) = Inr changes \<and> changes \<noteq> [] \<and>
         stashChanges cfg)) \<and>
   (exec w (trace s) (git_status repo) = Inr [] \<longrightarrow>
      [''git'', ''stash''] \<notin> Args ` set (newTrace s (snd (updateRepository w cfg repo s)))) \<and>
   (spinnerStart w (trace s) repo = None \<and>
    exec w (trace s) (git_status repo) = Inr changes \<and> changes \<noteq> [] \<and>
    \<not> stashChanges cfg \<longrightarrow>
      updateRepository w cfg repo s =
        (Some errStashNotAllowed,
         s\<lparr>trace := trace s @ [git_status repo],
           display := display s @ [Start repo, Info ''SKIPPED'']\<rparr>))"
  using stash_in_updateRepository [of s w cfg repo]
    skipped_updateRepository [of w s repo changes cfg]
  by simp

theorem stash_only_when_dirty_and_allowed_witness:
  "exec (sample [] [] []) (trace init) (git_status ''r'') = Inr [] \<and>
   [''git'', ''stash''] \<notin>
     Args ` set (newTrace init (snd (updateRepository (sample [] [] []) defaults ''r'' init))) \<and>
   spinnerStart (sample '' M x'' [] []) (trace init) ''r'' = None \<and>
   exec (sample '' M x'' [] []) (trace init) (git_status ''r'') = Inr '' M x'' \<and>
   '' M x'' \<noteq> [] \<and> \<not> stashChanges defaults \<and>
   updateRepository (sample '' M x'' [] []) defaults ''r'' init =
     (Some errStashNotAllowed,
      \<lparr>trace = [git_status ''r''], display = [Start ''r'', Info ''SKIPPED'']\<rparr>)"
  using stash_only_when_dirty_and_allowed [of init "sample [] [] []" defaults "''r''" "[]"]
    stash_only_when_dirty_and_allowed
      [of init "sample '' M x'' [] []" defaults "''r''" "'' M x''"]
  by (simp add: sample_def quiet_def init_def defaults_def git_status_def)

subsection \<open>The per-branch loop and its report\<close>

lemma map_fst_branchResults [simp]: "map fst (branchResults w repo bs s) = bs"
  by (induction bs arbitrary: s) (auto split: prod.splits)

lemma length_branchResults [simp]: "length (branchResults w repo bs s) = length bs"
  using map_fst_branchResults [of w repo bs s] length_map by metis

lemma fst_updateBranches:
  "fst (updateBranches w repo bs failed s) =
     failed @ map fst (filter (\<lambda>x. snd x \<noteq> None) (branchResults w repo bs s))"
proof (induction bs arbitrary: failed s)
  case Nil
  show ?case by simp
next
  case (Cons b bs)
  obtain e s1 where step: "updateBranch w repo b (emit (UpdateText b repo) s) = (e, s1)"
    by (cases "updateBranch w repo b (emit (UpdateText b repo) s)")
  show ?case
    using step Cons.IH by (cases e) simp_all
qed

lemma updateBranches_append:
  "updateBranches w repo (xs @ ys) failed s =
     updateBranches w repo ys (fst (updateBranches w repo xs failed s))
       (snd (updateBranches w repo xs failed s))"
proof (induction xs arbitrary: failed s)
  case Nil
  show ?case by simp
next
  case (Cons b bs)
  obtain e s1 where step: "updateBranch w repo b (emit (UpdateText b repo) s) = (e, s1)"
    by (cases "updateBranch w repo b (emit (UpdateText b repo) s)")
  show ?case
    using step Cons.IH by (cases e) simp_all
qed

lemma checkoutsOf_updateBranches:
  "checkoutsOf (newTrace s (snd (updateBranches w repo bs failed s))) = bs"
  using trace_updateBranches [of w repo bs failed s]
  by (auto simp add: newTrace_def)

lemma newDisplay_updateBranches:
  "newDisplay s (snd (updateBranches w repo bs failed s)) = map (\<lambda>b. UpdateText b repo) bs"
  by (simp add: newDisplay_def display_updateBranches)

lemma all_failed_iff: "length (filter P xs) = length xs \<longleftrightarrow> list_all P xs"
proof (induction xs)
  case Nil
  show ?case by simp
next
  case (Cons x xs)
  have "length (filter P xs) \<le> length xs" by simp
  then have "length (filter P xs) \<noteq> Suc (length xs)" by arith
  then show ?case using Cons.IH by simp
qed

lemma some_failed_iff: "0 < length (filter P xs) \<longleftrightarrow> list_ex P xs"
  by (induction xs) auto

lemma succeeded_count:
  "int (length xs) - int (length (filter P xs)) = int (length (filter (\<lambda>x. \<not> P x) xs))"
  using sum_length_filter_compl [of P xs] by simp

lemma fetchBranchesToUpdate_nonempty:
  "fetchBranchesToUpdate w cfg repo s = (Inr bs, s') \<Longrightarrow> bs \<noteq> []"
  by (auto simp add: fetchBranchesToUpdate_def Let_def split: prod.splits option.splits
      sum.splits if_splits)

lemma report_branchResults:
  "report repo bs (map fst (filter (\<lambda>x. snd x \<noteq> None) (branchResults w repo bs s))) =
     (if list_all (\<lambda>x. snd x \<noteq> None) (branchResults w repo bs s) then Fail
      else if list_ex (\<lambda>x. snd x \<noteq> None) (branchResults w repo bs s)
      then Warning repo
             (int (length (filter (\<lambda>x. snd x = None) (branchResults w repo bs s))))
             (int (length bs))
             (map fst (filter (\<lambda>x. snd x \<noteq> None) (branchResults w repo bs s)))
      else Success repo (int (length bs)) (int (length bs)))"
  using all_failed_iff [of "\<lambda>x. snd x \<noteq> None" "branchResults w repo bs s"]
    some_failed_iff [of "\<lambda>x. snd x \<noteq> None" "branchResults w repo bs s"]
    succeeded_count [of "branchResults w repo bs s" "\<lambda>x. snd x \<noteq> None"]
  by (simp add: report_def)

lemma updateRepository_loop:
  assumes "spinnerStart w (trace s) repo = None"
    and "stashIfDirty w cfg repo (emit (Start repo) s) = (None, s1)"
    and "fetchBranchesToUpdate w cfg repo s1 = (Inr bs, s2)"
  shows "updateRepository w cfg repo s =
    (None, emit (report repo bs (fst (updateBranches w repo bs [] s2)))
             (snd (updateBranches w repo bs [] s2)))"
  using assms
  by (simp add: updateRepository_def spinner_Start_def split: prod.splits)

text \<open>
  C2. Whenever the procedure for one repository reaches its per-branch loop (the spinner
  started, no error before the selection), the selection is non-empty and the closing
  report is: \<open>Fail\<close> when the update of every selected branch failed; \<open>Warning\<close>
  with the number of branches whose update succeeded, the total and the names of the
  failed branches when some but not all failed; \<open>Success\<close> with the number of
  branches when none failed. No error is returned in any of the three cases.
\<close>

theorem aggregated_report:
  "spinnerStart w (trace s) repo = None \<and>
   stashIfDirty w cfg repo (emit (Start repo) s) = (None, s1) \<and>
   fetchBranchesToUpdate w cfg repo s1 = (Inr bs, s2) \<longrightarrow>
     bs \<noteq> [] \<and>
     updateRepository w cfg repo s =
       (None,
        emit (if list_all (\<lambda>x. snd x \<noteq> None) (branchResults w repo bs s2) then Fail
              else if list_ex (\<lambda>x. snd x \<noteq> None) (branchResults w repo bs s2)
              then Warning repo
                     (int (length (filter (\<lambda>x. snd x = None) (branchResults w repo bs s2))))
                     (int (length bs))
                     (map fst (filter (\<lambda>x. snd x \<noteq> None) (branchResults w repo bs s2)))
              else Success repo (int (length bs)) (int (length bs)))
          (snd (updateBranches w repo bs [] s2)))"
proof (intro impI, elim conjE)
  assume a: "spinnerStart w (trace s) repo = None"
    "stashIfDirty w cfg repo (emit (Start repo) s) = (None, s1)"
    "fetchBranchesToUpdate w cfg repo s1 = (Inr bs, s2)"
  have "bs \<noteq> []"
    using fetchBranchesToUpdate_nonempty [OF a(3)] .
  moreover have "fst (updateBranches w repo bs [] s2) =
      map fst (filter (\<lambda>x. snd x \<noteq> None) (branchResults w repo bs s2))"
    by (simp add: fst_updateBranches)
  ultimately show "bs \<noteq> [] \<and>
     updateRepository w cfg repo s =
       (None,
        emit (if list_all (\<lambda>x. snd x \<noteq> None) (branchResults w repo bs s2) then Fail
              else if list_ex (\<lambda>x. snd x \<noteq> None) (branchResults w repo bs s2)
              then Warning repo
                     (int (length (filter (\<lambda>x. snd x = None) (branchResults w repo bs s2))))
                     (int (length bs))
                     (map fst (filter (\<lambda>x. snd x \<noteq> None) (branchResults w repo bs s2)))
              else Success repo (int (length bs)) (int (length bs)))
          (snd (updateBranches w repo bs [] s2)))"
    using updateRepository_loop [OF a] report_branchResults [of repo bs w s2] by simp
qed

lemma sample_stashIfDirty:
  "stashIfDirty (sample [] out broken) cfg ''r'' (emit (Start ''r'') init) =
     (None, \<lparr>trace = [git_status ''r''], display = [Start ''r'']\<rparr>)"
  by (simp add: stashIfDirty_cases sample_def quiet_def init_def emit_def git_status_def)

lemma sample_fetchBranchesToUpdate:
  "fetchBranchesToUpdate (sample [] abc broken) (defaults\<lparr>allBranches := True\<rparr>) ''r''
       \<lparr>trace = [git_status ''r''], display = [Start ''r'']\<rparr> =
     (Inr [''a'', ''b'', ''c''],
      \<lparr>trace = [git_status ''r'', git_fetch ''r'', git_branch_short ''r''],
        display = [Start ''r'']\<rparr>)"
  by (simp add: fetchBranchesToUpdate_def Run_def Output_def sample_def quiet_def defaults_def
      git_fetch_def git_branch_short_def abc_def newline_def skipLine_def
      strings_HasPrefix_def Let_def)

lemma sample_branchResults_all:
  "branchResults (sample [] abc [''a'', ''b'', ''c'']) ''r'' [''a'', ''b'', ''c''] s =
     [(''a'', Some (ExecError 1)), (''b'', Some (ExecError 1)), (''c'', Some (ExecError 1))]"
  by (simp add: updateBranch_def Run_def sample_def quiet_def git_checkout_def)

lemma sample_branchResults_b:
  "branchResults (sample [] abc [''b'']) ''r'' [''a'', ''b'', ''c''] s =
     [(''a'', None), (''b'', Some (ExecError 1)), (''c'', None)]"
  by (simp add: updateBranch_def Run_def sample_def quiet_def git_checkout_def git_pull_def)

theorem aggregated_report_witness:
  "spinnerStart (sample [] abc [''a'', ''b'', ''c'']) (trace init) ''r'' = None \<and>
   stashIfDirty (sample [] abc [''a'', ''b'', ''c'']) (defaults\<lparr>allBranches := True\<rparr>) ''r''
       (emit (Start ''r'') init) =
     (None, \<lparr>trace = [git_status ''r''], display = [Start ''r'']\<rparr>) \<and>
   fetchBranchesToUpdate (sample [] abc [''a'', ''b'', ''c'']) (defaults\<lparr>allBranches := True\<rparr>)
       ''r'' \<lparr>trace = [git_status ''r''], display = [Start ''r'']\<rparr> =
     (Inr [''a'', ''b'', ''c''],
      \<lparr>trace = [git_status ''r'', git_fetch ''r'', git_branch_short ''r''],
        display = [Start ''r'']\<rparr>) \<and>
   last (display (snd (updateRepository (sample [] abc [''a'', ''b'', ''c''])
      (defaults\<lparr>allBranches := True\<rparr>) ''r'' init))) = Fail"
proof -
  have h1: "spinnerStart (sample [] abc [''a'', ''b'', ''c'']) (trace init) ''r'' = None"
    by (simp add: sample_def quiet_def)
  note h2 = sample_stashIfDirty [of abc "[''a'', ''b'', ''c'']" "defaults\<lparr>allBranches := True\<rparr>"]
  note h3 = sample_fetchBranchesToUpdate [of "[''a'', ''b'', ''c'']"]
  have "last (display (snd (updateRepository (sample [] abc [''a'', ''b'', ''c''])
      (defaults\<lparr>allBranches := True\<rparr>) ''r'' init))) = Fail"
    using aggregated_report [of "sample [] abc [''a'', ''b'', ''c'']" init "''r''"
      "defaults\<lparr>allBranches := True\<rparr>" "\<lparr>trace = [git_status ''r''], display = [Start ''r'']\<rparr>"
      "[''a'', ''b'', ''c'']"
      "\<lparr>trace = [git_status ''r'', git_fetch ''r'', git_branch_short ''r''],
        display = [Start ''r'']\<rparr>"] h1 h2 h3
    unfolding sample_branchResults_all by simp
  then show ?thesis
    using h1 h2 h3 by simp
qed

lemma sample_updateBranches_b:
  "updateBranches (sample [] abc [''b'']) ''r'' [''a'', ''b'', ''c''] []
      \<lparr>trace = [git_status ''r'', git_fetch ''r'', git_branch_short ''r''],
        display = [Start ''r'']\<rparr> =
   ([''b''],
    \<lparr>trace = [git_status ''r'', git_fetch ''r'', git_branch_short ''r'',
              git_checkout ''r'' ''a'', git_pull ''r'', git_checkout ''r'' ''b'',
              git_checkout ''r'' ''c'', git_pull ''r''],
      display = [Start ''r'', UpdateText ''a'' ''r'', UpdateText ''b'' ''r'',
                 UpdateText ''c'' ''r'']\<rparr>)"
  by (simp add: updateBranch_def Run_def sample_def quiet_def git_checkout_def git_pull_def
      emit_def)

text \<open>
  C1. The per-branch loop of one repository never stops early. Whatever each update
  returns, the branches checked out by the loop are exactly the selected branches, in
  order, and the names recorded are exactly those of the branches whose update failed.
  When the update of a branch fails in the middle of the selection, the loop goes on with
  the remaining branches, all of which are still checked out, and the failed branch is in
  the list it returns. For the selection a, b, c where the update of b fails and those of
  a and c succeed, the report is the warning with 2 succeeded of 3 and the failed list
  holding b alone, and a, b and c were all checked out.
\<close>

theorem failed_branch_does_not_stop_loop:
  "checkoutsOf (newTrace s (snd (updateBranches w repo bs failed s))) = bs \<and>
   newDisplay s (snd (updateBranches w repo bs failed s)) = map (\<lambda>b. UpdateText b repo) bs \<and>
   fst (updateBranches w repo bs failed s) =
     failed @ map fst (filter (\<lambda>x. snd x \<noteq> None) (branchResults w repo bs s)) \<and>
   (updateBranches w repo pre failed s = (failed1, s1) \<and>
    updateBranch w repo b (emit (UpdateText b repo) s1) = (Some err, s2) \<longrightarrow>
      updateBranches w repo (pre @ b # post) failed s =
        updateBranches w repo post (failed1 @ [b]) s2 \<and>
      b \<in> set (fst (updateBranches w repo (pre @ b # post) failed s)) \<and>
      checkoutsOf (newTrace s2 (snd (updateBranches w repo (pre @ b # post) failed s))) = post) \<and>
   (spinnerStart w (trace s0) repo = None \<and>
    stashIfDirty w cfg repo (emit (Start repo) s0) = (None, s3) \<and>
    fetchBranchesToUpdate w cfg repo s3 = (Inr [''a'', ''b'', ''c''], s4) \<and>
    branchResults w repo [''a'', ''b'', ''c''] s4 = [(''a'', None), (''b'', Some e), (''c'', None)] \<longrightarrow>
      updateRepository w cfg repo s0 =
        (None, emit (Warning repo 2 3 [''b''])
                 (snd (updateBranches w repo [''a'', ''b'', ''c''] [] s4))) \<and>
      checkoutsOf (newTrace s4 (snd (updateBranches w repo [''a'', ''b'', ''c''] [] s4))) =
        [''a'', ''b'', ''c''])"
proof (intro conjI impI)
  show "checkoutsOf (newTrace s (snd (updateBranches w repo bs failed s))) = bs"
    by (rule checkoutsOf_updateBranches)
  show "newDisplay s (snd (updateBranches w repo bs failed s)) = map (\<lambda>b. UpdateText b repo) bs"
    by (rule newDisplay_updateBranches)
  show "fst (updateBranches w repo bs failed s) =
     failed @ map fst (filter (\<lambda>x. snd x \<noteq> None) (branchResults w repo bs s))"
    by (rule fst_updateBranches)
next
  assume a: "updateBranches w repo pre failed s = (failed1, s1) \<and>
    updateBranch w repo b (emit (UpdateText b repo) s1) = (Some err, s2)"
  then show eq: "updateBranches w repo (pre @ b # post) failed s =
        updateBranches w repo post (failed1 @ [b]) s2"
    by (simp add: updateBranches_append)
  show "b \<in> set (fst (updateBranches w repo (pre @ b # post) failed s))"
    unfolding eq by (simp add: fst_updateBranches)
  show "checkoutsOf (newTrace s2 (snd (updateBranches w repo (pre @ b # post) failed s))) = post"
    unfolding eq by (rule checkoutsOf_updateBranches)
next
  assume a: "spinnerStart w (trace s0) repo = None \<and>
    stashIfDirty w cfg repo (emit (Start repo) s0) = (None, s3) \<and>
    fetchBranchesToUpdate w cfg repo s3 = (Inr [''a'', ''b'', ''c''], s4) \<and>
    branchResults w repo [''a'', ''b'', ''c''] s4 = [(''a'', None), (''b'', Some e), (''c'', None)]"
  have "fst (updateBranches w repo [''a'', ''b'', ''c''] [] s4) = [''b'']"
    unfolding fst_updateBranches using a by simp
  then have "report repo [''a'', ''b'', ''c'']
      (fst (updateBranches w repo [''a'', ''b'', ''c''] [] s4)) = Warning repo 2 3 [''b'']"
    by (simp add: report_def)
  then show "updateRepository w cfg repo s0 =
        (None, emit (Warning repo 2 3 [''b''])
                 (snd (updateBranches w repo [''a'', ''b'', ''c''] [] s4)))"
    using a updateRepository_loop [of w s0 repo cfg s3 "[''a'', ''b'', ''c'']" s4] by simp
  show "checkoutsOf (newTrace s4 (snd (updateBranches w repo [''a'', ''b'', ''c''] [] s4))) =
        [''a'', ''b'', ''c'']"
    by (rule checkoutsOf_updateBranches)
qed

theorem failed_branch_does_not_stop_loop_witness:
  "updateBranches (sample [] abc [''b'']) ''r'' [''a''] []
      \<lparr>trace = [git_status ''r'', git_fetch ''r'', git_branch_short ''r''],
        display = [Start ''r'']\<rparr> =
     ([], \<lparr>trace = [git_status ''r'', git_fetch ''r'', git_branch_short ''r'',
                    git_checkout ''r'' ''a'', git_pull ''r''],
            display = [Start ''r'', UpdateText ''a'' ''r'']\<rparr>) \<and>
   updateBranch (sample [] abc [''b'']) ''r'' ''b''
      (emit (UpdateText ''b'' ''r'')
         \<lparr>trace = [git_status ''r'', git_fetch ''r'', git_branch_short ''r'',
                   git_checkout ''r'' ''a'', git_pull ''r''],
           display = [Start ''r'', UpdateText ''a'' ''r'']\<rparr>) =
     (Some (ExecError 1),
      \<lparr>trace = [git_status ''r'', git_fetch ''r'', git_branch_short ''r'',
                git_checkout ''r'' ''a'', git_pull ''r'', git_checkout ''r'' ''b''],
        display = [Start ''r'', UpdateText ''a'' ''r'', UpdateText ''b'' ''r'']\<rparr>) \<and>
   spinnerStart (sample [] abc [''b'']) (trace init) ''r'' = None \<and>
   stashIfDirty (sample [] abc [''b'']) (defaults\<lparr>allBranches := True\<rparr>) ''r''
       (emit (Start ''r'') init) =
     (None, \<lparr>trace = [git_status ''r''], display = [Start ''r'']\<rparr>) \<and>
   fetchBranchesToUpdate (sample [] abc [''b'']) (defaults\<lparr>allBranches := True\<rparr>)
       ''r'' \<lparr>trace = [git_status ''r''], display = [Start ''r'']\<rparr> =
     (Inr [''a'', ''b'', ''c''],
      \<lparr>trace = [git_status ''r'', git_fetch ''r'', git_branch_short ''r''],
        display = [Start ''r'']\<rparr>) \<and>
   branchResults (sample [] abc [''b'']) ''r'' [''a'', ''b'', ''c'']
       \<lparr>trace = [git_status ''r'', git_fetch ''r'', git_branch_short ''r''],
         display = [Start ''r'']\<rparr> =
     [(''a'', None), (''b'', Some (ExecError 1)), (''c'', None)] \<and>
   updateRepository (sample [] abc [''b'']) (defaults\<lparr>allBranches := True\<rparr>) ''r'' init =
     (None,
      \<lparr>trace = [git_status ''r'', git_fetch ''r'', git_branch_short ''r'',
                git_checkout ''r'' ''a'', git_pull ''r'', git_checkout ''r'' ''b'',
                git_checkout ''r'' ''c'', git_pull ''r''],
        display = [Start ''r'', UpdateText ''a'' ''r'', UpdateText ''b'' ''r'',
                   UpdateText ''c'' ''r'', Warning ''r'' 2 3 [''b'']]\<rparr>)"
proof -
  let ?w = "sample [] abc [''b'']"
  let ?s4 = "\<lparr>trace = [git_status ''r'', git_fetch ''r'', git_branch_short ''r''],
        display = [Start ''r'']\<rparr>"
  let ?s1 = "\<lparr>trace = [git_status ''r'', git_fetch ''r'', git_branch_short ''r'',
                    git_checkout ''r'' ''a'', git_pull ''r''],
            display = [Start ''r'', UpdateText ''a'' ''r'']\<rparr>"
  let ?s2 = "\<lparr>trace = [git_status ''r'', git_fetch ''r'', git_branch_short ''r'',
                git_checkout ''r'' ''a'', git_pull ''r'', git_checkout ''r'' ''b''],
        display = [Start ''r'', UpdateText ''a'' ''r'', UpdateText ''b'' ''r'']\<rparr>"
  have p1: "updateBranches ?w ''r'' [''a''] [] ?s4 = ([], ?s1)"
    by (simp add: updateBranch_def Run_def sample_def quiet_def git_checkout_def git_pull_def
        emit_def)
  have p2: "updateBranch ?w ''r'' ''b'' (emit (UpdateText ''b'' ''r'') ?s1) =
      (Some (ExecError 1), ?s2)"
    by (simp add: updateBranch_def Run_def sample_def quiet_def git_checkout_def emit_def)
  have h1: "spinnerStart ?w (trace init) ''r'' = None"
    by (simp add: sample_def quiet_def)
  note h2 = sample_stashIfDirty [of abc "[''b'']" "defaults\<lparr>allBranches := True\<rparr>"]
  note h3 = sample_fetchBranchesToUpdate [of "[''b'']"]
  note h4 = sample_branchResults_b [of ?s4]
  have "updateRepository ?w (defaults\<lparr>allBranches := True\<rparr>) ''r'' init =
      (None, emit (Warning ''r'' 2 3 [''b'']) (snd (updateBranches ?w ''r'' [''a'', ''b'', ''c''] [] ?s4)))"
    using failed_branch_does_not_stop_loop [of ?s4 ?w "''r''" "[''a'', ''b'', ''c'']" "[]"
        "[''a'']" "[]" ?s1 "''b''" "ExecError 1" ?s2 "[''c'']" init
        "defaults\<lparr>allBranches := True\<rparr>"
        "\<lparr>trace = [git_status ''r''], display = [Start ''r'']\<rparr>" ?s4 "ExecError 1"]
      h1 h2 h3 h4 p1 p2
    by blast
  then show ?thesis
    using h1 h2 h3 h4 p1 p2 unfolding sample_updateBranches_b by (simp add: emit_def)
qed

subsection \<open>The run over all repositories\<close>

lemma startsOf_append: "startsOf (xs @ ys) = startsOf xs @ startsOf ys"
  by (induction xs rule: startsOf.induct) simp_all

lemma startsOf_UpdateText [simp]: "startsOf (map (\<lambda>b. UpdateText b repo) bs) = []"
  by (induction bs) simp_all

lemma startsOf_report [simp]: "startsOf [report repo bs failed] = []"
  by (simp add: report_def)

lemma display_updateRepository:
  "\<exists>es. display (snd (updateRepository w cfg repo s)) = display s @ Start repo # es \<and>
        startsOf es = []"
proof (cases "spinnerStart w (trace s) repo")
  case (Some n)
  then show ?thesis
    by (simp add: updateRepository_def spinner_Start_def)
next
  case None
  define s0 where "s0 = emit (Start repo) s"
  obtain e1 s1 where stash: "stashIfDirty w cfg repo s0 = (e1, s1)"
    by (cases "stashIfDirty w cfg repo s0")
  have d1: "display s1 = display s @ [Start repo]"
    using arg_cong [OF stash, of "\<lambda>p. display (snd p)"] by (simp add: s0_def)
  show ?thesis
  proof (cases e1)
    case (Some err)
    then show ?thesis
      using None stash d1 by (simp add: updateRepository_def spinner_Start_def s0_def)
  next
    case ok: None
    obtain r2 s2 where fetch: "fetchBranchesToUpdate w cfg repo s1 = (r2, s2)"
      by (cases "fetchBranchesToUpdate w cfg repo s1")
    have d2: "display s2 = display s @ [Start repo]"
      using arg_cong [OF fetch, of "\<lambda>p. display (snd p)"] d1 by simp
    show ?thesis
    proof (cases r2)
      case (Inl err)
      then show ?thesis
        using None stash ok fetch d2
        by (simp add: updateRepository_def spinner_Start_def s0_def)
    next
      case (Inr bs)
      obtain failed s3 where loop: "updateBranches w repo bs [] s2 = (failed, s3)"
        by (cases "updateBranches w repo bs [] s2")
      have d3: "display s3 = display s @ Start repo # map (\<lambda>b. UpdateText b repo) bs"
        using display_updateBranches [of w repo bs "[]" s2] loop d2 by simp
      have "display (snd (updateRepository w cfg repo s)) =
          display s @ Start repo # (map (\<lambda>b. UpdateText b repo) bs @ [report repo bs failed])"
        using None stash ok fetch Inr loop d3
        by (simp add: updateRepository_def spinner_Start_def s0_def)
      moreover have "startsOf (map (\<lambda>b. UpdateText b repo) bs @ [report repo bs failed]) = []"
        by (simp add: startsOf_append)
      ultimately show ?thesis by blast
    qed
  qed
qed

lemma display_RunE_loop:
  "\<exists>es. display (RunE_loop w cfg repositories s) = display s @ es \<and>
        startsOf es = repositories"
proof (induction repositories arbitrary: s)
  case Nil
  show ?case by simp
next
  case (Cons repo rest)
  obtain es where es: "display (snd (updateRepository w cfg repo s)) = display s @ Start repo # es"
    "startsOf es = []"
    using display_updateRepository [of w cfg repo s] by blast
  obtain fs where fs: "display (RunE_loop w cfg rest (snd (updateRepository w cfg repo s))) =
      display (snd (updateRepository w cfg repo s)) @ fs" "startsOf fs = rest"
    using Cons.IH [of "snd (updateRepository w cfg repo s)"] by blast
  have "display (RunE_loop w cfg (repo # rest) s) = display s @ (Start repo # es @ fs)"
    using es(1) fs(1) by simp
  moreover have "startsOf (Start repo # es @ fs) = repo # rest"
    using es(2) fs(2) by (simp add: startsOf_append)
  ultimately show ?case by blast
qed

lemma startsOf_RunE_loop:
  "startsOf (newDisplay s (RunE_loop w cfg repositories s)) = repositories"
  using display_RunE_loop [of w cfg repositories s] by (auto simp add: newDisplay_def)

lemma RunE_loop_append:
  "RunE_loop w cfg (xs @ ys) s = RunE_loop w cfg ys (RunE_loop w cfg xs s)"
  by (induction xs arbitrary: s) simp_all

lemma RunE_discovered:
  assumes "expandPathWithTilde w (pathPrefix cfg) = Inr rootDir"
    and "spinnerStart w (trace s0) ''Finding repositories'' = None"
    and "findRepositories w rootDir (emit (Start ''Finding repositories'') s0) =
           (Inr repositories, s2)"
    and "length repositories > warnThreshold \<longrightarrow>
           confirmShow w (trace s2) (length repositories) = Inr True"
  shows "RunE w cfg s0 =
    (None, RunE_loop w cfg repositories (emit (Found (length repositories)) s2))"
  using assms
  by (simp add: RunE_def spinner_Start_def confirm_Show_def Let_def)

lemma twoRepos_find:
  "findRepositories twoRepos [] (emit (Start ''Finding repositories'') init) =
     (Inr [''./x'', ''./y''],
      \<lparr>trace = [find_git ''.''], display = [Start ''Finding repositories'']\<rparr>)"
  by (simp add: findRepositories_def Output_def twoRepos_def quiet_def init_def emit_def
      find_git_def strings_TrimSuffix_def strings_HasSuffix_def newline_def Let_def)

lemma twoRepos_x:
  "updateRepository twoRepos defaults ''./x'' s =
     (Some (ExecError 1),
      s\<lparr>trace := trace s @ [git_status ''./x''],
        display := display s @ [Start ''./x'', Fail]\<rparr>)"
  by (simp add: updateRepository_def spinner_Start_def stashIfDirty_cases twoRepos_def
      quiet_def find_git_def git_status_def emit_def)

lemma twoRepos_y:
  "updateRepository twoRepos defaults ''./y'' s =
     (None,
      s\<lparr>trace := trace s @ [git_status ''./y'', git_fetch ''./y'', git_branch_short ''./y'',
                              git_checkout ''./y'' ''main'', git_pull ''./y''],
        display := display s @ [Start ''./y'', UpdateText ''main'' ''./y'',
                                Success ''./y'' 1 1]\<rparr>)"
  by (simp add: updateRepository_def spinner_Start_def stashIfDirty_cases twoRepos_def
      quiet_def find_git_def git_status_def emit_def fetchBranchesToUpdate_def Run_def
      Output_def git_fetch_def git_branch_short_def newline_def skipLine_def defaults_def
      strings_HasPrefix_def updateBranch_def git_checkout_def git_pull_def report_def Let_def)

text \<open>
  C3. For every list of discovered repositories the run attempts every repository, in the
  order of the list, whatever the earlier ones returned: the spinner is started once for
  each repository, in order, and after any repository the loop goes on with the remaining
  ones from the state that repository left. Once discovery has succeeded (and the prompt,
  asked above the threshold, was confirmed), the command returns no error, whatever the
  repositories returned.
\<close>

theorem every_repository_attempted:
  "startsOf (newDisplay s (RunE_loop w cfg repositories s)) = repositories \<and>
   RunE_loop w cfg (pre @ repo # post) s =
     RunE_loop w cfg post (snd (updateRepository w cfg repo (RunE_loop w cfg pre s))) \<and>
   (expandPathWithTilde w (pathPrefix cfg) = Inr rootDir \<and>
    spinnerStart w (trace s0) ''Finding repositories'' = None \<and>
    findRepositories w rootDir (emit (Start ''Finding repositories'') s0) =
      (Inr repositories, s2) \<and>
    (length repositories > warnThreshold \<longrightarrow>
       confirmShow w (trace s2) (length repositories) = Inr True) \<longrightarrow>
      RunE w cfg s0 =
        (None, RunE_loop w cfg repositories (emit (Found (length repositories)) s2)))"
  using startsOf_RunE_loop [of s w cfg repositories]
    RunE_loop_append [of w cfg pre "repo # post" s]
    RunE_discovered [of w cfg rootDir s0 repositories s2]
  by simp

theorem every_repository_attempted_witness:
  "expandPathWithTilde twoRepos (pathPrefix defaults) = Inr [] \<and>
   spinnerStart twoRepos (trace init) ''Finding repositories'' = None \<and>
   findRepositories twoRepos [] (emit (Start ''Finding repositories'') init) =
     (Inr [''./x'', ''./y''],
      \<lparr>trace = [find_git ''.''], display = [Start ''Finding repositories'']\<rparr>) \<and>
   \<not> length [''./x'', ''./y''] > warnThreshold \<and>
   fst (updateRepository twoRepos defaults ''./x''
     \<lparr>trace = [find_git ''.''], display = [Start ''Finding repositories'', Found 2]\<rparr>) =
     Some (ExecError 1) \<and>
   RunE twoRepos defaults init =
     (None,
      \<lparr>trace = [find_git ''.'', git_status ''./x'', git_status ''./y'', git_fetch ''./y'',
                git_branch_short ''./y'', git_checkout ''./y'' ''main'', git_pull ''./y''],
        display = [Start ''Finding repositories'', Found 2, Start ''./x'', Fail,
                   Start ''./y'', UpdateText ''main'' ''./y'', Success ''./y'' 1 1]\<rparr>)"
proof -
  have h1: "expandPathWithTilde twoRepos (pathPrefix defaults) = Inr []"
    by (simp add: expandPathWithTilde_def twoRepos_def quiet_def defaults_def
        strings_HasPrefix_def)
  have h2: "spinnerStart twoRepos (trace init) ''Finding repositories'' = None"
    by (simp add: twoRepos_def quiet_def)
  note h3 = twoRepos_find
  have h4: "\<not> length [''./x'', ''./y''] > warnThreshold"
    by (simp add: warnThreshold_def)
  have "RunE twoRepos defaults init =
      (None, RunE_loop twoRepos defaults [''./x'', ''./y'']
         (emit (Found (length [''./x'', ''./y'']))
            \<lparr>trace = [find_git ''.''], display = [Start ''Finding repositories'']\<rparr>))"
    using every_repository_attempted [of init twoRepos defaults "[''./x'', ''./y'']" "[]"
        "''./x''" "[''./y'']" "[]" init
        "\<lparr>trace = [find_git ''.''], display = [Start ''Finding repositories'']\<rparr>"]
      h1 h2 h3 h4
    by blast
  then show ?thesis
    using h1 h2 h3 h4 by (simp add: twoRepos_x twoRepos_y emit_def)
qed

subsection \<open>The selection of branches\<close>

lemma strings_HasPrefix_iff: "strings_HasPrefix s p \<longleftrightarrow> prefix p s"
proof
  assume "strings_HasPrefix s p"
  then have "take (length p) s = p"
    by (simp add: strings_HasPrefix_def)
  then show "prefix p s"
    by (metis take_is_prefix)
next
  assume "prefix p s"
  then obtain zs where "s = p @ zs"
    by (auto simp add: prefix_def)
  then show "strings_HasPrefix s p"
    by (simp add: strings_HasPrefix_def)
qed

lemma strings_Contains_char: "strings_Contains s [c] \<longleftrightarrow> c \<in> set s"
  by (induction s) (auto simp add: strings_HasPrefix_def)

lemma skipLine_iff:
  "skipLine line \<longleftrightarrow>
     line = [] \<or> prefix ''refs/'' line \<or> prefix ''heads/'' line \<or> prefix ''origin/'' line \<or>
     CHR '' '' \<in> set line"
  by (simp add: skipLine_def strings_HasPrefix_iff strings_Contains_char)

lemma appendRequested_eq:
  "appendRequested branch names acc = acc @ replicate (count_list names branch) branch"
proof (induction names arbitrary: acc)
  case Nil
  show ?case by simp
next
  case (Cons name names)
  show ?case
    by (simp add: Cons.IH replicate_append_same)
qed

lemma appendBranches_all:
  "allBranches cfg \<Longrightarrow>
   appendBranches cfg lines acc = acc @ filter (\<lambda>branch. \<not> skipLine branch) lines"
  by (induction lines arbitrary: acc) simp_all

lemma appendBranches_explicit:
  "\<not> allBranches cfg \<Longrightarrow>
   appendBranches cfg lines acc =
     acc @ concat (map (\<lambda>branch. replicate (count_list (requestedBranches cfg) branch) branch)
                    (filter (\<lambda>branch. \<not> skipLine branch) lines))"
  by (induction lines arbitrary: acc) (simp_all add: appendRequested_eq)

lemma appendBranches_filter:
  "appendBranches cfg lines acc =
     appendBranches cfg (filter (\<lambda>branch. \<not> skipLine branch) lines) acc"
  by (induction lines arbitrary: acc) simp_all

lemma count_list_replicate: "count_list (replicate n x) y = (if x = y then n else 0)"
  by (induction n) auto

lemma count_list_repeated:
  "count_list (concat (map (\<lambda>x. replicate (f x) x) xs)) y = count_list xs y * f y"
  by (induction xs) (simp_all add: count_list_replicate)

lemma count_list_distinct:
  "distinct xs \<Longrightarrow> count_list xs y = (if y \<in> set xs then 1 else 0)"
  by (induction xs) auto

lemma repeated_distinct:
  "distinct names \<Longrightarrow>
   concat (map (\<lambda>x. replicate (count_list names x) x) xs) = filter (\<lambda>x. x \<in> set names) xs"
  by (induction xs) (simp_all add: count_list_distinct)

lemma set_repeated:
  "set (concat (map (\<lambda>x. replicate (count_list names x) x) xs)) =
     set (filter (\<lambda>x. x \<in> set names) xs)"
proof -
  have "\<And>x. (count_list names x \<noteq> 0) = (x \<in> set names)"
    by (simp add: count_list_0_iff)
  then show ?thesis
    by (auto simp add: set_replicate_conv_if)
qed

lemma repeated_removeAll:
  "name \<notin> set xs \<Longrightarrow>
   concat (map (\<lambda>x. replicate (count_list (removeAll name names) x) x) xs) =
   concat (map (\<lambda>x. replicate (count_list names x) x) xs)"
proof -
  have "\<And>x. x \<noteq> name \<Longrightarrow> count_list (removeAll name names) x = count_list names x"
    by (induction names) auto
  then have "\<And>x. x \<in> set xs \<Longrightarrow> name \<notin> set xs \<Longrightarrow>
      replicate (count_list (removeAll name names) x) x = replicate (count_list names x) x"
    by metis
  then show "name \<notin> set xs \<Longrightarrow> ?thesis"
    by (induction xs) simp_all
qed

lemma fetchBranchesToUpdate_listed:
  assumes "exec w (trace s) (git_fetch repo) = Inr out"
    and "exec w (trace s @ [git_fetch repo]) (git_branch_short repo) = Inr branches"
  shows "fetchBranchesToUpdate w cfg repo s =
    (if appendBranches cfg (strings_Split branches newline) [] = [] then Inl errNoBranch
     else Inr (appendBranches cfg (strings_Split branches newline) []),
     s\<lparr>trace := trace s @ [git_fetch repo, git_branch_short repo]\<rparr>)"
  using assms
  by (simp add: fetchBranchesToUpdate_def Run_def Output_def Let_def)

lemma fetchBranchesToUpdate_never_empty:
  "fst (fetchBranchesToUpdate w cfg repo s) \<noteq> Inr []"
  by (simp add: fetchBranchesToUpdate_def Run_def Output_def Let_def split: sum.splits)

lemma filteredBranches_noisy: "filteredBranches noisy = [''main'']"
  by (simp add: filteredBranches_def noisy_def newline_def skipLine_def strings_HasPrefix_def)

lemma filteredBranches_main_feature: "filteredBranches main_feature = [''main'', ''feature-x'']"
  by (simp add: filteredBranches_def main_feature_def newline_def skipLine_def
      strings_HasPrefix_def)

lemma filteredBranches_main_only: "filteredBranches main_only = [''main'']"
  by (simp add: filteredBranches_def main_only_def newline_def skipLine_def
      strings_HasPrefix_def)

text \<open>
  C5, as stated, fails for white space other than the space: the line holding a, a tab
  and b contains white space, yet the loop does not skip it, and a listing with that
  line gives it back as a branch.
\<close>

theorem filtered_branch_list_counterexample:
  "spec_discarded a_tab_b \<and> \<not> skipLine a_tab_b \<and>
   fst (fetchBranchesToUpdate (sample [] (a_tab_b @ [newline]) [])
          (defaults\<lparr>allBranches := True\<rparr>) ''r'' init) = Inr [a_tab_b]"
proof -
  have c1: "spec_discarded a_tab_b"
    by (simp add: spec_discarded_def spec_whitespace_def a_tab_b_def tab_def)
  have c2: "\<not> skipLine a_tab_b"
    by (simp add: skipLine_def strings_HasPrefix_def a_tab_b_def tab_def)
  have split: "strings_Split (a_tab_b @ [newline]) newline = [a_tab_b, []]"
    by (simp add: a_tab_b_def tab_def newline_def)
  have sel: "appendBranches (defaults\<lparr>allBranches := True\<rparr>)
      (strings_Split (a_tab_b @ [newline]) newline) [] = [a_tab_b]"
    unfolding split using c2 by (simp add: defaults_def skipLine_def)
  have "fetchBranchesToUpdate (sample [] (a_tab_b @ [newline]) [])
      (defaults\<lparr>allBranches := True\<rparr>) ''r'' init =
     (if appendBranches (defaults\<lparr>allBranches := True\<rparr>)
           (strings_Split (a_tab_b @ [newline]) newline) [] = [] then Inl errNoBranch
      else Inr (appendBranches (defaults\<lparr>allBranches := True\<rparr>)
           (strings_Split (a_tab_b @ [newline]) newline) []),
      init\<lparr>trace := trace init @ [git_fetch ''r'', git_branch_short ''r'']\<rparr>)"
    by (rule fetchBranchesToUpdate_listed [of _ _ _ "[]"])
      (simp_all add: sample_def quiet_def git_fetch_def git_branch_short_def)
  then have c3: "fst (fetchBranchesToUpdate (sample [] (a_tab_b @ [newline]) [])
          (defaults\<lparr>allBranches := True\<rparr>) ''r'' init) = Inr [a_tab_b]"
    unfolding sel by simp
  show ?thesis
    using c1 c2 c3 by simp
qed

text \<open>
  C5, amended. For every branch-listing output, the loop skips exactly the lines that are
  empty, begin with \<open>refs/\<close>, \<open>heads/\<close> or \<open>origin/\<close>, or contain a space
  character; skipped lines have no effect on the result in either mode, and in the
  all-branches mode the result is exactly the list of the lines not skipped, in order.
  The listing with the lines \<open>refs/heads/main\<close>, \<open>origin/main\<close>, two spaces and
  \<open>main\<close> filters down to \<open>main\<close> alone.
\<close>

theorem filtered_branch_list:
  "(skipLine line \<longleftrightarrow>
      line = [] \<or> prefix ''refs/'' line \<or> prefix ''heads/'' line \<or>
      prefix ''origin/'' line \<or> CHR '' '' \<in> set line) \<and>
   appendBranches cfg lines acc =
     appendBranches cfg (filter (\<lambda>branch. \<not> skipLine branch) lines) acc \<and>
   (allBranches cfg \<longrightarrow>
      appendBranches cfg (strings_Split branches newline) [] = filteredBranches branches) \<and>
   strings_Split noisy newline = [''refs/heads/main'', ''origin/main'', ''  '', ''main'', []] \<and>
   filteredBranches noisy = [''main''] \<and>
   appendBranches defaults (strings_Split noisy newline) [] = [''main'']"
proof (intro conjI impI)
  show "skipLine line \<longleftrightarrow>
      line = [] \<or> prefix ''refs/'' line \<or> prefix ''heads/'' line \<or>
      prefix ''origin/'' line \<or> CHR '' '' \<in> set line"
    by (rule skipLine_iff)
  show "appendBranches cfg lines acc =
     appendBranches cfg (filter (\<lambda>branch. \<not> skipLine branch) lines) acc"
    by (rule appendBranches_filter)
  show "strings_Split noisy newline = [''refs/heads/main'', ''origin/main'', ''  '', ''main'', []]"
    by (simp add: noisy_def newline_def)
  show "filteredBranches noisy = [''main'']"
    by (rule filteredBranches_noisy)
  have "appendBranches defaults (strings_Split noisy newline) [] =
      concat (map (\<lambda>branch. replicate (count_list (requestedBranches defaults) branch) branch)
        (filteredBranches noisy))"
    by (simp add: appendBranches_explicit filteredBranches_def defaults_def)
  then show "appendBranches defaults (strings_Split noisy newline) [] = [''main'']"
    unfolding filteredBranches_noisy by (simp add: defaults_def)
next
  assume "allBranches cfg"
  then show "appendBranches cfg (strings_Split branches newline) [] = filteredBranches branches"
    by (simp add: appendBranches_all filteredBranches_def)
qed

theorem filtered_branch_list_witness:
  "allBranches (defaults\<lparr>allBranches := True\<rparr>) \<and>
   appendBranches (defaults\<lparr>allBranches := True\<rparr>) (strings_Split noisy newline) [] = [''main''] \<and>
   fst (fetchBranchesToUpdate (sample [] noisy []) (defaults\<lparr>allBranches := True\<rparr>) ''r'' init) =
     Inr [''main'']"
proof -
  have sel: "appendBranches (defaults\<lparr>allBranches := True\<rparr>) (strings_Split noisy newline) [] =
      [''main'']"
    using filtered_branch_list [of _ "defaults\<lparr>allBranches := True\<rparr>" _ _ noisy]
    by simp
  have "fst (fetchBranchesToUpdate (sample [] noisy []) (defaults\<lparr>allBranches := True\<rparr>)
      ''r'' init) =
      (if appendBranches (defaults\<lparr>allBranches := True\<rparr>) (strings_Split noisy newline) [] = []
       then Inl errNoBranch
       else Inr (appendBranches (defaults\<lparr>allBranches := True\<rparr>)
                   (strings_Split noisy newline) []))"
    by (subst fetchBranchesToUpdate_listed [of _ _ _ "[]" noisy])
      (simp_all add: sample_def quiet_def git_fetch_def git_branch_short_def)
  then show ?thesis
    unfolding sel by simp
qed

text \<open>
  C4, as stated, fails when a requested name is repeated: with the requested names
  main, main and the one branch main, the selection is main twice, which is not the
  subset of the filtered list.
\<close>

theorem explicit_selection_counterexample:
  "fst (fetchBranchesToUpdate (sample [] main_only [])
          (defaults\<lparr>requestedBranches := [''main'', ''main'']\<rparr>) ''r'' init) =
     Inr [''main'', ''main''] \<and>
   spec_ExplicitList (filteredBranches main_only) [''main'', ''main''] = [''main'']"
  by (simp add: fetchBranchesToUpdate_def Run_def Output_def sample_def quiet_def defaults_def
      git_fetch_def git_branch_short_def main_only_def newline_def skipLine_def
      strings_HasPrefix_def Let_def spec_ExplicitList_def filteredBranches_def)

text \<open>
  C4, amended. In the explicit-list mode, for every listing and every list of requested
  names, the selection lists the filtered branches in the order of the listing, each once
  per occurrence of its name in the requested names. So it has the same members as the
  subset of the filtered list whose names are requested, and it equals that subset when no
  requested name is repeated. A requested name that is not in the filtered list changes
  nothing. The function never returns an empty selection: once the fetch and the listing
  have succeeded, an empty selection is the error \<open>errNoBranch\<close>.
\<close>

theorem explicit_selection:
  "\<not> allBranches cfg \<longrightarrow>
     appendBranches cfg (strings_Split branches newline) [] =
       concat (map (\<lambda>branch. replicate (count_list (requestedBranches cfg) branch) branch)
                 (filteredBranches branches)) \<and>
     set (appendBranches cfg (strings_Split branches newline) []) =
       set (spec_ExplicitList (filteredBranches branches) (requestedBranches cfg)) \<and>
     (distinct (requestedBranches cfg) \<longrightarrow>
        appendBranches cfg (strings_Split branches newline) [] =
          spec_ExplicitList (filteredBranches branches) (requestedBranches cfg)) \<and>
     (name \<notin> set (filteredBranches branches) \<longrightarrow>
        appendBranches (cfg\<lparr>requestedBranches := removeAll name (requestedBranches cfg)\<rparr>)
            (strings_Split branches newline) [] =
          appendBranches cfg (strings_Split branches newline) []) \<and>
     fst (fetchBranchesToUpdate w cfg repo s) \<noteq> Inr [] \<and>
     (exec w (trace s) (git_fetch repo) = Inr out \<and>
      exec w (trace s @ [git_fetch repo]) (git_branch_short repo) = Inr branches \<longrightarrow>
        fetchBranchesToUpdate w cfg repo s =
          (if appendBranches cfg (strings_Split branches newline) [] = [] then Inl errNoBranch
           else Inr (appendBranches cfg (strings_Split branches newline) []),
           s\<lparr>trace := trace s @ [git_fetch repo, git_branch_short repo]\<rparr>))"
proof (intro impI)
  assume explicit: "\<not> allBranches cfg"
  have eq: "appendBranches cfg (strings_Split branches newline) [] =
       concat (map (\<lambda>branch. replicate (count_list (requestedBranches cfg) branch) branch)
                 (filteredBranches branches))"
    using explicit by (simp add: appendBranches_explicit filteredBranches_def)
  have removed: "appendBranches (cfg\<lparr>requestedBranches := removeAll name (requestedBranches cfg)\<rparr>)
            (strings_Split branches newline) [] =
       concat (map (\<lambda>branch. replicate
                  (count_list (removeAll name (requestedBranches cfg)) branch) branch)
                 (filteredBranches branches))"
    using explicit by (simp add: appendBranches_explicit filteredBranches_def)
  show "appendBranches cfg (strings_Split branches newline) [] =
       concat (map (\<lambda>branch. replicate (count_list (requestedBranches cfg) branch) branch)
                 (filteredBranches branches)) \<and>
     set (appendBranches cfg (strings_Split branches newline) []) =
       set (spec_ExplicitList (filteredBranches branches) (requestedBranches cfg)) \<and>
     (distinct (requestedBranches cfg) \<longrightarrow>
        appendBranches cfg (strings_Split branches newline) [] =
          spec_ExplicitList (filteredBranches branches) (requestedBranches cfg)) \<and>
     (name \<notin> set (filteredBranches branches) \<longrightarrow>
        appendBranches (cfg\<lparr>requestedBranches := removeAll name (requestedBranches cfg)\<rparr>)
            (strings_Split branches newline) [] =
          appendBranches cfg (strings_Split branches newline) []) \<and>
     fst (fetchBranchesToUpdate w cfg repo s) \<noteq> Inr [] \<and>
     (exec w (trace s) (git_fetch repo) = Inr out \<and>
      exec w (trace s @ [git_fetch repo]) (git_branch_short repo) = Inr branches \<longrightarrow>
        fetchBranchesToUpdate w cfg repo s =
          (if appendBranches cfg (strings_Split branches newline) [] = [] then Inl errNoBranch
           else Inr (appendBranches cfg (strings_Split branches newline) []),
           s\<lparr>trace := trace s @ [git_fetch repo, git_branch_short repo]\<rparr>))"
  proof (intro conjI impI)
    show "appendBranches cfg (strings_Split branches newline) [] =
       concat (map (\<lambda>branch. replicate (count_list (requestedBranches cfg) branch) branch)
                 (filteredBranches branches))"
      by (rule eq)
    show "set (appendBranches cfg (strings_Split branches newline) []) =
       set (spec_ExplicitList (filteredBranches branches) (requestedBranches cfg))"
      unfolding eq spec_ExplicitList_def by (rule set_repeated)
    show "fst (fetchBranchesToUpdate w cfg repo s) \<noteq> Inr []"
      by (rule fetchBranchesToUpdate_never_empty)
  next
    assume "distinct (requestedBranches cfg)"
    then show "appendBranches cfg (strings_Split branches newline) [] =
          spec_ExplicitList (filteredBranches branches) (requestedBranches cfg)"
      unfolding eq spec_ExplicitList_def by (rule repeated_distinct)
  next
    assume "name \<notin> set (filteredBranches branches)"
    then show "appendBranches (cfg\<lparr>requestedBranches := removeAll name (requestedBranches cfg)\<rparr>)
            (strings_Split branches newline) [] =
          appendBranches cfg (strings_Split branches newline) []"
      unfolding eq removed by (rule repeated_removeAll)
  next
    assume "exec w (trace s) (git_fetch repo) = Inr out \<and>
      exec w (trace s @ [git_fetch repo]) (git_branch_short repo) = Inr branches"
    then show "fetchBranchesToUpdate w cfg repo s =
          (if appendBranches cfg (strings_Split branches newline) [] = [] then Inl errNoBranch
           else Inr (appendBranches cfg (strings_Split branches newline) []),
           s\<lparr>trace := trace s @ [git_fetch repo, git_branch_short repo]\<rparr>)"
      using fetchBranchesToUpdate_listed [of w s repo out branches cfg] by simp
  qed
qed

theorem explicit_selection_witness:
  "\<not> allBranches defaults \<and> distinct (requestedBranches defaults) \<and>
   ''master'' \<notin> set (filteredBranches main_feature) \<and>
   exec (sample [] main_feature []) (trace init) (git_fetch ''r'') = Inr [] \<and>
   exec (sample [] main_feature []) (trace init @ [git_fetch ''r'']) (git_branch_short ''r'') =
     Inr main_feature \<and>
   appendBranches defaults (strings_Split main_feature newline) [] = [''main''] \<and>
   fetchBranchesToUpdate (sample [] main_feature []) defaults ''r'' init =
     (Inr [''main''], \<lparr>trace = [git_fetch ''r'', git_branch_short ''r''], display = []\<rparr>)"
proof -
  have h1: "\<not> allBranches defaults" "distinct (requestedBranches defaults)"
    by (simp_all add: defaults_def)
  have h2: "''master'' \<notin> set (filteredBranches main_feature)"
    unfolding filteredBranches_main_feature by simp
  have h3: "exec (sample [] main_feature []) (trace init) (git_fetch ''r'') = Inr []"
    "exec (sample [] main_feature []) (trace init @ [git_fetch ''r'']) (git_branch_short ''r'') =
     Inr main_feature"
    by (simp_all add: sample_def quiet_def git_fetch_def git_branch_short_def)
  note inst = explicit_selection [of defaults main_feature "''master''" "sample [] main_feature []"
      "''r''" init "[]", THEN mp, OF h1(1)]
  have sel: "appendBranches defaults (strings_Split main_feature newline) [] = [''main'']"
    using inst h1(2) unfolding filteredBranches_main_feature
    by (simp add: spec_ExplicitList_def defaults_def)
  have "fetchBranchesToUpdate (sample [] main_feature []) defaults ''r'' init =
     (Inr [''main''], \<lparr>trace = [git_fetch ''r'', git_branch_short ''r''], display = []\<rparr>)"
    using inst h3 unfolding sel by (simp add: init_def)
  then show ?thesis
    using h1 h2 h3 sel by simp
qed

subsection \<open>Requested names that are repeated\<close>

lemma map_fst_checkoutResults [simp]: "map fst (checkoutResults w repo bs s) = bs"
  by (induction bs arbitrary: s) simp_all

lemma trace_updateBranch_commands:
  "trace (snd (updateBranch w repo b s)) =
     trace s @ branchCommands repo
       (b, (case exec w (trace s) (git_checkout repo b) of Inl n \<Rightarrow> False | Inr out \<Rightarrow> True))"
  by (simp add: updateBranch_def Run_def branchCommands_def split: sum.splits)

lemma trace_updateBranches_commands:
  "trace (snd (updateBranches w repo bs failed s)) =
     trace s @ concat (map (branchCommands repo) (checkoutResults w repo bs s))"
proof (induction bs arbitrary: failed s)
  case Nil
  show ?case by simp
next
  case (Cons b bs)
  obtain e s1 where step: "updateBranch w repo b (emit (UpdateText b repo) s) = (e, s1)"
    by (cases "updateBranch w repo b (emit (UpdateText b repo) s)")
  have t1: "trace s1 =
      trace s @ branchCommands repo
        (b, (case exec w (trace s) (git_checkout repo b) of Inl n \<Rightarrow> False | Inr out \<Rightarrow> True))"
    using trace_updateBranch_commands [of w repo b "emit (UpdateText b repo) s"]
      arg_cong [OF step, of "\<lambda>p. trace (snd p)"]
    by simp
  have s1: "snd (updateBranch w repo b (emit (UpdateText b repo) s)) = s1"
    using step by simp
  show ?case
    using step Cons.IH t1 s1 by (cases e) simp_all
qed

lemma count_list_selection:
  "\<not> allBranches cfg \<Longrightarrow>
   count_list (appendBranches cfg (strings_Split branches newline) []) b =
     count_list (filteredBranches branches) b * count_list (requestedBranches cfg) b"
  by (simp add: appendBranches_explicit filteredBranches_def count_list_repeated)

lemma main_twice_requested:
  "fetchBranchesToUpdate (sample [] listing broken)
      (defaults\<lparr>requestedBranches := [''main'', ''main'']\<rparr>) ''r''
      \<lparr>trace = [git_status ''r''], display = [Start ''r'']\<rparr> =
   (if appendBranches (defaults\<lparr>requestedBranches := [''main'', ''main'']\<rparr>)
         (strings_Split listing newline) [] = [] then Inl errNoBranch
    else Inr (appendBranches (defaults\<lparr>requestedBranches := [''main'', ''main'']\<rparr>)
         (strings_Split listing newline) []),
    \<lparr>trace = [git_status ''r'', git_fetch ''r'', git_branch_short ''r''],
      display = [Start ''r'']\<rparr>)"
  by (subst fetchBranchesToUpdate_listed [of _ _ _ "[]" listing])
    (simp_all add: sample_def quiet_def git_fetch_def git_branch_short_def git_status_def)

lemma select_main_only:
  "appendBranches (defaults\<lparr>requestedBranches := [''main'', ''main'']\<rparr>)
     (strings_Split main_only newline) [] = [''main'', ''main'']"
  by (simp add: main_only_def newline_def skipLine_def strings_HasPrefix_def defaults_def)

lemma select_main_twice:
  "appendBranches (defaults\<lparr>requestedBranches := [''main'', ''main'']\<rparr>)
     (strings_Split main_twice newline) [] = [''main'', ''main'', ''main'', ''main'']"
  by (simp add: main_twice_def newline_def skipLine_def strings_HasPrefix_def defaults_def)

text \<open>
  C10, as stated, fails in two ways. With main requested twice and listed once, in a world
  where the checkout of main fails, the loop runs the checkout twice and the pull never:
  it does not pull once per occurrence. And with main requested twice and listed on two
  lines, the selection holds main four times, not twice.
\<close>

theorem repeated_request_counterexample:
  "count_list (requestedBranches (defaults\<lparr>requestedBranches := [''main'', ''main'']\<rparr>))
     ''main'' = 2 \<and>
   filteredBranches main_only = [''main''] \<and>
   updateRepository (sample [] main_only [''main''])
       (defaults\<lparr>requestedBranches := [''main'', ''main'']\<rparr>) ''r'' init =
     (None,
      \<lparr>trace = [git_status ''r'', git_fetch ''r'', git_branch_short ''r'',
                git_checkout ''r'' ''main'', git_checkout ''r'' ''main''],
        display = [Start ''r'', UpdateText ''main'' ''r'', UpdateText ''main'' ''r'', Fail]\<rparr>) \<and>
   filteredBranches main_twice = [''main'', ''main''] \<and>
   fst (fetchBranchesToUpdate (sample [] main_twice [])
          (defaults\<lparr>requestedBranches := [''main'', ''main'']\<rparr>) ''r'' init) =
     Inr [''main'', ''main'', ''main'', ''main'']"
proof -
  let ?cfg = "defaults\<lparr>requestedBranches := [''main'', ''main'']\<rparr>"
  have c1: "count_list (requestedBranches ?cfg) ''main'' = 2"
    by (simp add: defaults_def)
  have c2: "filteredBranches main_twice = [''main'', ''main'']"
    by (simp add: filteredBranches_def main_twice_def newline_def skipLine_def
        strings_HasPrefix_def)
  have c3: "updateRepository (sample [] main_only [''main'']) ?cfg ''r'' init =
     (None,
      \<lparr>trace = [git_status ''r'', git_fetch ''r'', git_branch_short ''r'',
                git_checkout ''r'' ''main'', git_checkout ''r'' ''main''],
        display = [Start ''r'', UpdateText ''main'' ''r'', UpdateText ''main'' ''r'', Fail]\<rparr>)"
  proof -
    let ?w = "sample [] main_only [''main'']"
    let ?s2 = "\<lparr>trace = [git_status ''r'', git_fetch ''r'', git_branch_short ''r''],
        display = [Start ''r'']\<rparr>"
    have h1: "spinnerStart ?w (trace init) ''r'' = None"
      by (simp add: sample_def quiet_def)
    note h2 = sample_stashIfDirty [of main_only "[''main'']" ?cfg]
    have h3: "fetchBranchesToUpdate ?w ?cfg ''r''
        \<lparr>trace = [git_status ''r''], display = [Start ''r'']\<rparr> = (Inr [''main'', ''main''], ?s2)"
      unfolding main_twice_requested select_main_only by simp
    have loop: "updateBranches ?w ''r'' [''main'', ''main''] [] ?s2 =
        ([''main'', ''main''],
         \<lparr>trace = [git_status ''r'', git_fetch ''r'', git_branch_short ''r'',
                   git_checkout ''r'' ''main'', git_checkout ''r'' ''main''],
           display = [Start ''r'', UpdateText ''main'' ''r'', UpdateText ''main'' ''r'']\<rparr>)"
      by (simp add: updateBranch_def Run_def sample_def quiet_def git_checkout_def emit_def)
    show ?thesis
      unfolding updateRepository_loop [OF h1 h2 h3] loop
      by (simp add: report_def emit_def)
  qed
  have "fetchBranchesToUpdate (sample [] main_twice []) ?cfg ''r'' init =
     (if appendBranches ?cfg (strings_Split main_twice newline) [] = [] then Inl errNoBranch
      else Inr (appendBranches ?cfg (strings_Split main_twice newline) []),
      init\<lparr>trace := trace init @ [git_fetch ''r'', git_branch_short ''r'']\<rparr>)"
    by (rule fetchBranchesToUpdate_listed [of _ _ _ "[]"])
      (simp_all add: sample_def quiet_def git_fetch_def git_branch_short_def)
  then have c4: "fst (fetchBranchesToUpdate (sample [] main_twice []) ?cfg ''r'' init) =
     Inr [''main'', ''main'', ''main'', ''main'']"
    unfolding select_main_twice by simp
  show ?thesis
    using c1 c2 c3 c4 filteredBranches_main_only by simp
qed


text \<open>
  C10, amended. In the explicit-list mode, when a branch name is among the requested names
  and in the filtered list, and the procedure for one repository reaches the selection
  (the spinner started, the dirty check, the fetch and the listing succeeded), then: the
  selection returned by \<open>fetchBranchesToUpdate\<close> holds the branch k times for each
  line of the filtered list that names it, k being the number of its occurrences in the
  requested names (so k times when it is listed once); \<open>updateRepository\<close> returns no
  error and runs, after the listing, exactly one checkout for every occurrence in the
  selection, in order, each followed by one pull when that checkout succeeded and by
  nothing when it failed; so the branch is checked out once per occurrence.
\<close>

theorem repeated_request_repeats_update:
  "\<not> allBranches cfg \<and>
   b \<in> set (filteredBranches branches) \<and> b \<in> set (requestedBranches cfg) \<and>
   spinnerStart w (trace s) repo = None \<and>
   stashIfDirty w cfg repo (emit (Start repo) s) = (None, s1) \<and>
   exec w (trace s1) (git_fetch repo) = Inr out \<and>
   exec w (trace s1 @ [git_fetch repo]) (git_branch_short repo) = Inr branches \<and>
   s2 = s1\<lparr>trace := trace s1 @ [git_fetch repo, git_branch_short repo]\<rparr> \<and>
   selection = appendBranches cfg (strings_Split branches newline) [] \<longrightarrow>
     count_list selection b =
       count_list (filteredBranches branches) b * count_list (requestedBranches cfg) b \<and>
     fetchBranchesToUpdate w cfg repo s1 = (Inr selection, s2) \<and>
     fst (updateRepository w cfg repo s) = None \<and>
     map fst (checkoutResults w repo selection s2) = selection \<and>
     trace (snd (updateRepository w cfg repo s)) =
       trace s2 @ concat (map (branchCommands repo) (checkoutResults w repo selection s2)) \<and>
     count_list (checkoutsOf (newTrace s2 (snd (updateRepository w cfg repo s)))) b =
       count_list (filteredBranches branches) b * count_list (requestedBranches cfg) b"
proof (intro impI, elim conjE)
  assume explicit: "\<not> allBranches cfg"
    and listed: "b \<in> set (filteredBranches branches)"
    and requested: "b \<in> set (requestedBranches cfg)"
    and spinner: "spinnerStart w (trace s) repo = None"
    and stash: "stashIfDirty w cfg repo (emit (Start repo) s) = (None, s1)"
    and fetch: "exec w (trace s1) (git_fetch repo) = Inr out"
    and listing: "exec w (trace s1 @ [git_fetch repo]) (git_branch_short repo) = Inr branches"
    and s2: "s2 = s1\<lparr>trace := trace s1 @ [git_fetch repo, git_branch_short repo]\<rparr>"
    and sel: "selection = appendBranches cfg (strings_Split branches newline) []"
  have count: "count_list selection b =
       count_list (filteredBranches branches) b * count_list (requestedBranches cfg) b"
    unfolding sel using explicit by (rule count_list_selection)
  have "count_list (filteredBranches branches) b \<noteq> 0" "count_list (requestedBranches cfg) b \<noteq> 0"
    using listed requested by (simp_all add: count_list_0_iff)
  then have "count_list selection b \<noteq> 0"
    using count by simp
  then have nonempty: "selection \<noteq> []"
    by auto
  have selected: "fetchBranchesToUpdate w cfg repo s1 = (Inr selection, s2)"
    using fetchBranchesToUpdate_listed [OF fetch listing, of cfg] nonempty
    unfolding sel s2 by simp
  have whole: "updateRepository w cfg repo s =
      (None, emit (report repo selection (fst (updateBranches w repo selection [] s2)))
               (snd (updateBranches w repo selection [] s2)))"
    using updateRepository_loop [OF spinner stash selected] .
  have tr: "trace (snd (updateRepository w cfg repo s)) =
       trace s2 @ concat (map (branchCommands repo) (checkoutResults w repo selection s2))"
    unfolding whole by (simp add: trace_updateBranches_commands)
  have "newTrace s2 (snd (updateRepository w cfg repo s)) =
      newTrace s2 (snd (updateBranches w repo selection [] s2))"
    unfolding whole by (simp add: newTrace_def)
  then have "checkoutsOf (newTrace s2 (snd (updateRepository w cfg repo s))) = selection"
    by (simp add: checkoutsOf_updateBranches)
  then show "count_list selection b =
       count_list (filteredBranches branches) b * count_list (requestedBranches cfg) b \<and>
     fetchBranchesToUpdate w cfg repo s1 = (Inr selection, s2) \<and>
     fst (updateRepository w cfg repo s) = None \<and>
     map fst (checkoutResults w repo selection s2) = selection \<and>
     trace (snd (updateRepository w cfg repo s)) =
       trace s2 @ concat (map (branchCommands repo) (checkoutResults w repo selection s2)) \<and>
     count_list (checkoutsOf (newTrace s2 (snd (updateRepository w cfg repo s)))) b =
       count_list (filteredBranches branches) b * count_list (requestedBranches cfg) b"
    using count selected whole tr by simp
qed

theorem repeated_request_repeats_update_witness:
  "\<not> allBranches (defaults\<lparr>requestedBranches := [''main'', ''main'']\<rparr>) \<and>
   ''main'' \<in> set (filteredBranches main_only) \<and>
   ''main'' \<in> set (requestedBranches (defaults\<lparr>requestedBranches := [''main'', ''main'']\<rparr>)) \<and>
   spinnerStart (sample [] main_only []) (trace init) ''r'' = None \<and>
   stashIfDirty (sample [] main_only []) (defaults\<lparr>requestedBranches := [''main'', ''main'']\<rparr>)
       ''r'' (emit (Start ''r'') init) =
     (None, \<lparr>trace = [git_status ''r''], display = [Start ''r'']\<rparr>) \<and>
   exec (sample [] main_only []) [git_status ''r''] (git_fetch ''r'') = Inr [] \<and>
   exec (sample [] main_only []) [git_status ''r'', git_fetch ''r''] (git_branch_short ''r'') =
     Inr main_only \<and>
   appendBranches (defaults\<lparr>requestedBranches := [''main'', ''main'']\<rparr>)
     (strings_Split main_only newline) [] = [''main'', ''main''] \<and>
   count_list [''main'', ''main''] ''main'' = 2 \<and>
   fst (updateRepository (sample [] main_only [])
          (defaults\<lparr>requestedBranches := [''main'', ''main'']\<rparr>) ''r'' init) = None \<and>
   trace (snd (updateRepository (sample [] main_only [])
          (defaults\<lparr>requestedBranches := [''main'', ''main'']\<rparr>) ''r'' init)) =
     [git_status ''r'', git_fetch ''r'', git_branch_short ''r'',
      git_checkout ''r'' ''main'', git_pull ''r'', git_checkout ''r'' ''main'', git_pull ''r'']"
proof -
  let ?cfg = "defaults\<lparr>requestedBranches := [''main'', ''main'']\<rparr>"
  let ?w = "sample [] main_only []"
  let ?s1 = "\<lparr>trace = [git_status ''r''], display = [Start ''r'']\<rparr>"
  let ?s2 = "\<lparr>trace = [git_status ''r'', git_fetch ''r'', git_branch_short ''r''],
        display = [Start ''r'']\<rparr>"
  have h1: "\<not> allBranches ?cfg" "''main'' \<in> set (requestedBranches ?cfg)"
    by (simp_all add: defaults_def)
  have h2: "''main'' \<in> set (filteredBranches main_only)"
    unfolding filteredBranches_main_only by simp
  have h3: "spinnerStart ?w (trace init) ''r'' = None"
    by (simp add: sample_def quiet_def)
  note h4 = sample_stashIfDirty [of main_only "[]" ?cfg]
  have h5: "exec ?w (trace ?s1) (git_fetch ''r'') = Inr []"
    "exec ?w (trace ?s1 @ [git_fetch ''r'']) (git_branch_short ''r'') = Inr main_only"
    by (simp_all add: sample_def quiet_def git_fetch_def git_branch_short_def)
  have h6: "?s2 = ?s1\<lparr>trace := trace ?s1 @ [git_fetch ''r'', git_branch_short ''r'']\<rparr>"
    by simp
  note h7 = select_main_only [symmetric]
  have results: "checkoutResults ?w ''r'' [''main'', ''main''] ?s2 =
      [(''main'', True), (''main'', True)]"
    by (simp add: sample_def quiet_def git_checkout_def)
  have inst: "count_list [''main'', ''main''] ''main'' =
       count_list (filteredBranches main_only) ''main'' * count_list (requestedBranches ?cfg) ''main'' \<and>
     fetchBranchesToUpdate ?w ?cfg ''r'' ?s1 = (Inr [''main'', ''main''], ?s2) \<and>
     fst (updateRepository ?w ?cfg ''r'' init) = None \<and>
     map fst (checkoutResults ?w ''r'' [''main'', ''main''] ?s2) = [''main'', ''main''] \<and>
     trace (snd (updateRepository ?w ?cfg ''r'' init)) =
       trace ?s2 @ concat (map (branchCommands ''r'')
         (checkoutResults ?w ''r'' [''main'', ''main''] ?s2)) \<and>
     count_list (checkoutsOf (newTrace ?s2 (snd (updateRepository ?w ?cfg ''r'' init)))) ''main'' =
       count_list (filteredBranches main_only) ''main'' * count_list (requestedBranches ?cfg) ''main''"
    using repeated_request_repeats_update [of ?cfg "''main''" main_only ?w init "''r''" ?s1 "[]"
        ?s2 "[''main'', ''main'']"] h1 h2 h3 h4 h5 h6 h7
    by blast
  then have tr: "trace (snd (updateRepository ?w ?cfg ''r'' init)) =
     [git_status ''r'', git_fetch ''r'', git_branch_short ''r'',
      git_checkout ''r'' ''main'', git_pull ''r'', git_checkout ''r'' ''main'', git_pull ''r'']"
    unfolding results by (simp add: branchCommands_def)
  show ?thesis
    using h1 h2 h3 h4 h5 inst tr select_main_only by simp
qed

subsection \<open>The earlier variant\<close>

text \<open>
  The earlier variant differs from the one above in three places. Its per-branch loop,
  \<open>Update\<close>, returns at the first branch whose update fails; its loop over the
  repositories returns at the first repository that returns an error; and
  \<open>GetAllBranches\<close> drops the empty lines of the listing only.
\<close>

lemma Update_loop_stops:
  "repository_updateBranch w r branch s = (Some err, r1, s1) \<Longrightarrow>
   repository_Update_loop w r (branch # rest) s = (Some err, r1, s1)"
  by simp

lemma Update_stops_at_b:
  "repository_Update (sample [] abc [''b'']) (newRepository ''r'') [''a'', ''b'', ''c''] init =
     (Some (ExecError 1), newRepository ''r'',
      \<lparr>trace = [git_fetch ''r'', git_checkout ''r'' ''a'', git_pull ''r'',
                git_checkout ''r'' ''b''],
        display = []\<rparr>)"
  by (simp add: repository_Update_def repository_updateRemote_def repository_updateBranch_def
      newRepository_def Run_def sample_def quiet_def init_def git_fetch_def git_checkout_def
      git_pull_def)

lemma RunE_loop_plain_stops:
  "updateRepository_plain w cfg repository s = (Some err, s1) \<Longrightarrow>
   RunE_loop_plain w cfg (repository # rest) s = (Some err, s1)"
  by simp

lemma RunE_loop_plain_stops_at_x:
  "RunE_loop_plain twoRepos defaults [''./x'', ''./y''] init =
     (Some (ExecError 1), \<lparr>trace = [git_status ''./x''], display = [Println ''./x'']\<rparr>)"
  by (simp add: updateRepository_plain_def repository_IsDirty_def newRepository_def Output_def
      twoRepos_def quiet_def init_def emit_def git_status_def find_git_def)

lemma appendNonEmpty_eq:
  "appendNonEmpty lines acc = acc @ filter (\<lambda>branch. branch \<noteq> []) lines"
  by (induction lines arbitrary: acc) simp_all

lemma appendNonEmpty_noisy:
  "appendNonEmpty (strings_Split noisy newline) [] =
     [''refs/heads/main'', ''origin/main'', ''  '', ''main'']"
  by (simp add: noisy_def newline_def)

end
